theory Spec2Isabelle
  imports Complex_Main "HOL-Library.AList"
begin

section \<open>Python strings\<close>

text \<open>
  A Python \<open>str\<close> is a sequence of code points. The model uses \<open>string\<close>, so a
  character is one of the code points 0 to 255 (Latin-1), and the character classes below
  are the ones Python 3 assigns to exactly these code points: \<open>str.isspace\<close> and the
  regex class \<open>\s\<close> agree, \<open>\w\<close> is \<open>str.isalnum\<close> plus the underscore, \<open>\d\<close>
  is the ten ASCII digits. Text with code points beyond 255 is outside the model.
\<close>

definition code :: "char \<Rightarrow> nat" where
  "code c = of_char c"

definition ascii_digits :: string where
  "ascii_digits = ''0123456789''"

definition ascii_uppercase :: string where
  "ascii_uppercase = ''ABCDEFGHIJKLMNOPQRSTUVWXYZ''"

definition ascii_lowercase :: string where
  "ascii_lowercase = ''abcdefghijklmnopqrstuvwxyz''"

definition latin1_uppercase :: string where
  "latin1_uppercase =
     [CHR 0xC0, CHR 0xC1, CHR 0xC2, CHR 0xC3, CHR 0xC4, CHR 0xC5, CHR 0xC6, CHR 0xC7,
      CHR 0xC8, CHR 0xC9, CHR 0xCA, CHR 0xCB, CHR 0xCC, CHR 0xCD, CHR 0xCE, CHR 0xCF,
      CHR 0xD0, CHR 0xD1, CHR 0xD2, CHR 0xD3, CHR 0xD4, CHR 0xD5, CHR 0xD6, CHR 0xD8,
      CHR 0xD9, CHR 0xDA, CHR 0xDB, CHR 0xDC, CHR 0xDD, CHR 0xDE]"

definition latin1_lowercase :: string where
  "latin1_lowercase =
     [CHR 0xE0, CHR 0xE1, CHR 0xE2, CHR 0xE3, CHR 0xE4, CHR 0xE5, CHR 0xE6, CHR 0xE7,
      CHR 0xE8, CHR 0xE9, CHR 0xEA, CHR 0xEB, CHR 0xEC, CHR 0xED, CHR 0xEE, CHR 0xEF,
      CHR 0xF0, CHR 0xF1, CHR 0xF2, CHR 0xF3, CHR 0xF4, CHR 0xF5, CHR 0xF6, CHR 0xF8,
      CHR 0xF9, CHR 0xFA, CHR 0xFB, CHR 0xFC, CHR 0xFD, CHR 0xFE]"

definition latin1_other_alnum :: string where
  "latin1_other_alnum =
     [CHR 0xAA, CHR 0xB2, CHR 0xB3, CHR 0xB5, CHR 0xB9, CHR 0xBA, CHR 0xBC, CHR 0xBD,
      CHR 0xBE, CHR 0xDF, CHR 0xFF]"

definition whitespace :: string where
  "whitespace =
     [CHR 0x20, CHR 0x09, CHR 0x0A, CHR 0x0B, CHR 0x0C, CHR 0x0D, CHR 0x1C, CHR 0x1D,
      CHR 0x1E, CHR 0x1F, CHR 0x85, CHR 0xA0]"

definition linebreaks :: string where
  "linebreaks = [CHR 0x0A, CHR 0x0B, CHR 0x0C, CHR 0x0D, CHR 0x1C, CHR 0x1D, CHR 0x1E, CHR 0x85]"

definition is_digit :: "char \<Rightarrow> bool" where
  "is_digit c = (c \<in> set ascii_digits)"

definition is_space :: "char \<Rightarrow> bool" where
  "is_space c = (c \<in> set whitespace)"

definition is_word :: "char \<Rightarrow> bool" where
  "is_word c = (c \<in> set (ascii_lowercase @ ascii_digits @ ascii_uppercase @ ''_''
                            @ latin1_lowercase @ latin1_uppercase @ latin1_other_alnum))"

definition lower_char :: "char \<Rightarrow> char" where
  "lower_char c =
     (case map_of (zip (ascii_uppercase @ latin1_uppercase)
                       (ascii_lowercase @ latin1_lowercase)) c of
        None \<Rightarrow> c
      | Some d \<Rightarrow> d)"

text \<open>
  \<open>str.upper\<close> sends the sharp s (223) to the two letters SS; the micro sign (181) and
  the y with diaeresis (255) go to code points beyond 255, which the model keeps as they
  are: such a label is only ever compared with ASCII keys, which it differs from either way.
\<close>

definition upper_char :: "char \<Rightarrow> string" where
  "upper_char c =
     (if c = CHR 0xDF then ''SS''
      else case map_of (zip (ascii_lowercase @ latin1_lowercase)
                            (ascii_uppercase @ latin1_uppercase)) c of
             None \<Rightarrow> [c]
           | Some d \<Rightarrow> [d])"

text \<open>
  The same classes decided on the eight bits of a character (\<open>b0\<close> is the lowest).
  They are proved equal to the tables, by going through the 256 characters, and
  serve as code equations: evaluation then takes a few steps for a character instead of
  a search of the tables.
\<close>

fun digit_bits :: "char \<Rightarrow> bool" where
  "digit_bits (Char b0 b1 b2 b3 b4 b5 b6 b7) =
     (if b7 then False else (if b6 then False else (if b5 then (if b4 then (if b3 then (if
       b2 then False else \<not> b1) else True) else False) else False)))"

fun space_bits :: "char \<Rightarrow> bool" where
  "space_bits (Char b0 b1 b2 b3 b4 b5 b6 b7) =
     (if b7 then (if b6 then False else (if b5 then (if b4 then False else (if b3 then False
       else (if b2 then False else (if b1 then False else \<not> b0)))) else (if b4 then
       False else (if b3 then False else (if b2 then (if b1 then False else b0) else
       False))))) else (if b6 then False else (if b5 then (if b4 then False else (if b3 then
       False else (if b2 then False else (if b1 then False else \<not> b0)))) else (if b4
       then (if b3 then b2 else False) else (if b3 then (if b2 then \<not> b1 else (if b1
       then True else b0)) else False)))))"

fun word_bits :: "char \<Rightarrow> bool" where
  "word_bits (Char b0 b1 b2 b3 b4 b5 b6 b7) =
     (if b7 then (if b6 then (if b4 then (if b3 then True else (if b2 then (if b1 then
       \<not> b0 else True) else True)) else True) else (if b5 then (if b4 then (if b3 then
       (if b2 then (if b1 then \<not> b0 else True) else (if b1 then \<not> b0 else b0))
       else (if b2 then (if b1 then False else b0) else b1)) else (if b3 then (if b2 then
       False else (if b1 then \<not> b0 else False)) else False)) else False)) else (if b6
       then (if b5 then (if b4 then (if b3 then (if b2 then False else (if b1 then \<not> b0
       else True)) else True) else (if b3 then True else (if b2 then True else (if b1 then
       True else b0)))) else (if b4 then (if b3 then (if b2 then (if b1 then b0 else False)
       else (if b1 then \<not> b0 else True)) else True) else (if b3 then True else (if b2
       then True else (if b1 then True else b0))))) else (if b5 then (if b4 then (if b3 then
       (if b2 then False else \<not> b1) else True) else False) else False)))"

fun upper_bits :: "char \<Rightarrow> bool" where
  "upper_bits (Char b0 b1 b2 b3 b4 b5 b6 b7) =
     (if b7 then (if b6 then (if b5 then False else (if b4 then (if b2 then (if b1 then
       \<not> b0 else True) else True) else True)) else False) else (if b6 then (if b5 then
       False else (if b4 then (if b3 then (if b2 then False else (if b1 then \<not> b0 else
       True)) else True) else (if b3 then True else (if b2 then True else (if b1 then True
       else b0))))) else False))"

fun lower_bits :: "char \<Rightarrow> char" where
  "lower_bits (Char b0 b1 b2 b3 b4 b5 b6 b7) =
     (if upper_bits (Char b0 b1 b2 b3 b4 b5 b6 b7) then Char b0 b1 b2 b3 b4 True b6 b7
      else Char b0 b1 b2 b3 b4 b5 b6 b7)"

definition lower :: "string \<Rightarrow> string" where
  "lower s = map lower_char s"

definition upper :: "string \<Rightarrow> string" where
  "upper s = concat (map upper_char s)"

definition strip :: "string \<Rightarrow> string" where
  "strip s = rev (dropWhile is_space (rev (dropWhile is_space s)))"

definition rstrip_chars :: "string \<Rightarrow> string \<Rightarrow> string" where
  "rstrip_chars cs s = rev (dropWhile (\<lambda>c. c \<in> set cs) (rev s))"

definition replace_char :: "char \<Rightarrow> char \<Rightarrow> string \<Rightarrow> string" where
  "replace_char a b s = map (\<lambda>c. if c = a then b else c) s"

text \<open>The operator \<open>x in s\<close> on two strings: \<open>x\<close> occurs in \<open>s\<close> as a substring.\<close>

fun contains :: "string \<Rightarrow> string \<Rightarrow> bool" where
  "contains x [] = (x = [])"
| "contains x (c # cs) = (take (length x) (c # cs) = x \<or> contains x cs)"

text \<open>
  \<open>str.splitlines\<close>: a line ends at a line feed, carriage return (with a following
  line feed taken into the same break), vertical tab, form feed, the separators 28 to 30
  and the next-line character 133; a final break opens no empty last line.
\<close>

definition is_linebreak :: "char \<Rightarrow> bool" where
  "is_linebreak c = (c \<in> set linebreaks)"

fun splitlines_acc :: "string \<Rightarrow> string \<Rightarrow> string list" where
  "splitlines_acc acc [] = (if acc = [] then [] else [rev acc])"
| "splitlines_acc acc (c # cs) =
     (if is_linebreak c
      then rev acc # (case cs of
                        d # ds \<Rightarrow> if c = CHR 0x0D \<and> d = CHR 0x0A then splitlines_acc [] ds
                                  else splitlines_acc [] cs
                      | [] \<Rightarrow> [])
      else splitlines_acc (c # acc) cs)"

definition splitlines :: "string \<Rightarrow> string list" where
  "splitlines s = splitlines_acc [] s"

section \<open>Regular expressions\<close>

text \<open>
  The patterns of the program use literals, character sets, \<open>\d\<close>, \<open>\s\<close>, \<open>\b\<close>, \<open>$\<close>,
  alternation, \<open>?\<close>, and \<open>*\<close> on a single character or class. The matcher follows the
  backtracking order of Python's \<open>re\<close>: it runs a list of patterns one after the other
  from a position and returns every way they can match, the preferred one first (greedy
  repetition, alternatives from left to right). A position is the character before it,
  if any, and the text that follows. The bounded repetition \<open>\d{1,2}\<close> is written as a
  digit followed by an optional digit, which has the same matches in the same order.
\<close>

datatype sym = Lit char | AnyOf string | Digit | Space

datatype rx =
    Eps
  | Sym sym
  | Seq rx rx
  | Alt rx rx
  | Opt rx
  | Star sym
  | WordBoundary
  | EndOfString

type_synonym pos = "char option \<times> string"

definition char_eq :: "bool \<Rightarrow> char \<Rightarrow> char \<Rightarrow> bool" where
  "char_eq ignorecase p c = (if ignorecase then lower_char p = lower_char c else p = c)"

fun sym_ok :: "bool \<Rightarrow> sym \<Rightarrow> char \<Rightarrow> bool" where
  "sym_ok ic (Lit a) c = char_eq ic a c"
| "sym_ok ic (AnyOf as) c = list_ex (\<lambda>a. char_eq ic a c) as"
| "sym_ok ic Digit c = is_digit c"
| "sym_ok ic Space c = is_space c"

definition at_word_boundary :: "pos \<Rightarrow> bool" where
  "at_word_boundary p =
     ((case fst p of None \<Rightarrow> False | Some c \<Rightarrow> is_word c)
      \<noteq> (case snd p of [] \<Rightarrow> False | c # _ \<Rightarrow> is_word c))"

definition at_end :: "pos \<Rightarrow> bool" where
  "at_end p = (snd p = [] \<or> snd p = [CHR 0x0A])"

fun rx_weight :: "rx \<Rightarrow> nat" where
  "rx_weight (Seq r1 r2) = Suc (rx_weight r1 + rx_weight r2)"
| "rx_weight (Alt r1 r2) = Suc (rx_weight r1 + rx_weight r2)"
| "rx_weight (Opt r) = Suc (rx_weight r)"
| "rx_weight r = 1"

function rx_run :: "bool \<Rightarrow> rx list \<Rightarrow> pos \<Rightarrow> pos list" where
  "rx_run ic [] p = [p]"
| "rx_run ic (Eps # k) p = rx_run ic k p"
| "rx_run ic (Sym a # k) p =
     (case snd p of
        [] \<Rightarrow> []
      | c # cs \<Rightarrow> if sym_ok ic a c then rx_run ic k (Some c, cs) else [])"
| "rx_run ic (Seq r1 r2 # k) p = rx_run ic (r1 # r2 # k) p"
| "rx_run ic (Alt r1 r2 # k) p = rx_run ic (r1 # k) p @ rx_run ic (r2 # k) p"
| "rx_run ic (Opt r # k) p = rx_run ic (r # k) p @ rx_run ic k p"
| "rx_run ic (Star a # k) p =
     (case snd p of
        [] \<Rightarrow> rx_run ic k p
      | c # cs \<Rightarrow> if sym_ok ic a c
                  then rx_run ic (Star a # k) (Some c, cs) @ rx_run ic k p
                  else rx_run ic k p)"
| "rx_run ic (WordBoundary # k) p = (if at_word_boundary p then rx_run ic k p else [])"
| "rx_run ic (EndOfString # k) p = (if at_end p then rx_run ic k p else [])"
  by pat_completeness auto
termination
  by (relation "measures [\<lambda>(ic, k, p). length (snd p),
                          \<lambda>(ic, k, p). sum_list (map rx_weight k)]") auto

definition rx_ends :: "bool \<Rightarrow> rx \<Rightarrow> pos \<Rightarrow> pos list" where
  "rx_ends ic r p = rx_run ic [r] p"

text \<open>\<open>pattern.search(s)\<close> as a truth value: the pattern matches from some position.\<close>

fun search_from :: "bool \<Rightarrow> rx \<Rightarrow> char option \<Rightarrow> string \<Rightarrow> bool" where
  "search_from ic r prev [] = (rx_ends ic r (prev, []) \<noteq> [])"
| "search_from ic r prev (c # cs) =
     (if rx_ends ic r (prev, c # cs) \<noteq> [] then True else search_from ic r (Some c) cs)"

definition re_search :: "bool \<Rightarrow> rx \<Rightarrow> string \<Rightarrow> bool" where
  "re_search ic r s = search_from ic r None s"

text \<open>
  \<open>pattern.findall(s)\<close> for a pattern whose one group is the whole match, and
  \<open>re.sub(pattern, "", s)\<close>: scanning from the left, the preferred match at the first
  position that has one is taken, and the scan goes on behind it. A match of no
  character contributes nothing and the scan moves one character on.
\<close>

function findall_from :: "bool \<Rightarrow> rx \<Rightarrow> char option \<Rightarrow> string \<Rightarrow> string list" where
  "findall_from ic r prev [] = []"
| "findall_from ic r prev (c # cs) =
     (case rx_ends ic r (prev, c # cs) of
        [] \<Rightarrow> findall_from ic r (Some c) cs
      | q # _ \<Rightarrow> if length (snd q) < length (c # cs)
                 then take (length (c # cs) - length (snd q)) (c # cs)
                      # findall_from ic r (fst q) (snd q)
                 else findall_from ic r (Some c) cs)"
  by pat_completeness auto
termination
  by (relation "measure (\<lambda>(ic, r, prev, s). length s)") auto

definition re_findall :: "bool \<Rightarrow> rx \<Rightarrow> string \<Rightarrow> string list" where
  "re_findall ic r s = findall_from ic r None s"

function sub_from :: "bool \<Rightarrow> rx \<Rightarrow> char option \<Rightarrow> string \<Rightarrow> string" where
  "sub_from ic r prev [] = []"
| "sub_from ic r prev (c # cs) =
     (case rx_ends ic r (prev, c # cs) of
        [] \<Rightarrow> c # sub_from ic r (Some c) cs
      | q # _ \<Rightarrow> if length (snd q) < length (c # cs)
                 then sub_from ic r (fst q) (snd q)
                 else c # sub_from ic r (Some c) cs)"
  by pat_completeness auto
termination
  by (relation "measure (\<lambda>(ic, r, prev, s). length s)") auto

definition re_sub_empty :: "bool \<Rightarrow> rx \<Rightarrow> string \<Rightarrow> string" where
  "re_sub_empty ic r s = sub_from ic r None s"

fun rx_str :: "string \<Rightarrow> rx" where
  "rx_str [] = Eps"
| "rx_str [c] = Sym (Lit c)"
| "rx_str (c # cs) = Seq (Sym (Lit c)) (rx_str cs)"

fun rx_alts :: "rx \<Rightarrow> rx list \<Rightarrow> rx" where
  "rx_alts r [] = r"
| "rx_alts r (r' # rs) = Alt r (rx_alts r' rs)"

fun rx_seq :: "rx list \<Rightarrow> rx" where
  "rx_seq [] = Eps"
| "rx_seq [r] = r"
| "rx_seq (r # rs) = Seq r (rx_seq rs)"

section \<open>The normalizer\<close>

definition plan_suffix_pattern :: rx where
  "plan_suffix_pattern =
     rx_seq [Star Space,
             rx_alts (rx_str ''regular plan'')
                     [rx_str ''reg'', rx_str ''institutional plan'',
                      rx_str ''ex institutional plan'', rx_str ''retail plan'',
                      rx_str ''long term plan''],
             Star Space, EndOfString]"

text \<open>
  The first substitution of \<open>normalize\<close> deletes every character outside the set
  \<open>[\w\s.]\<close>; it is written as the filter it is.
\<close>

definition normalize :: "string \<Rightarrow> string" where
  "normalize text =
     (let text1 = lower (strip (filter (\<lambda>c. is_word c \<or> is_space c \<or> c = CHR ''.'') text));
          text2 = re_sub_empty False plan_suffix_pattern text1
      in strip text2)"

section \<open>Configuration\<close>

type_synonym rates = "(string \<times> rat option) list"
type_synonym registry = "(string \<times> rates) list"

definition PDF_PASSWORDS :: "string list" where
  "PDF_PASSWORDS = [''ARN100481'', ''AAHCP7661C'', []]"

definition MAX_REASONABLE_RATE :: rat where
  "MAX_REASONABLE_RATE = 10"

definition BROKERAGE_TYPES :: "string list" where
  "BROKERAGE_TYPES = [''FIRST YEAR TRAIL'', ''SECOND YEAR TRAIL'', ''THIRD YEAR TRAIL'',
                      ''FOURTH YEAR TRAIL'', ''LONGTERM YEAR TRAIL'']"

definition SCHEME_VALIDATIONS :: "(string \<times> (string \<times> rat) list) list" where
  "SCHEME_VALIDATIONS =
     [(''hsbc financial services fund'', [(''FOURTH YEAR TRAIL'', 135 / 100)]),
      (''hsbc india export opportunities fund'',
         [(''THIRD YEAR TRAIL'', 145 / 100), (''FOURTH YEAR TRAIL'', 135 / 100)]),
      (''hsbc midcap fund'',
         [(''THIRD YEAR TRAIL'', 115 / 100), (''FOURTH YEAR TRAIL'', 105 / 100),
          (''LONGTERM YEAR TRAIL'', 105 / 100)])]"

definition year_suffix :: rx where
  "year_suffix = rx_seq [Star Space, Alt (rx_str ''year'') (rx_str ''yr''), Star Space,
                         Opt (rx_alts (rx_str ''trail'') [rx_str ''commission'', rx_str ''rate'']),
                         WordBoundary]"

definition one_to_three :: rx where
  "one_to_three = rx_seq [Sym (Lit CHR ''1''), Star Space, Sym (AnyOf ''-to''), Star Space,
                          Sym (Lit CHR ''3'')]"

definition BROKERAGE_COLUMN_PATTERNS :: "(rx \<times> string list) list" where
  "BROKERAGE_COLUMN_PATTERNS =
     [(rx_seq [WordBoundary, Alt (rx_str ''first'') (rx_str ''1st''), year_suffix],
         [''FIRST YEAR TRAIL'']),
      (rx_seq [WordBoundary, Alt (rx_str ''second'') (rx_str ''2nd''), year_suffix],
         [''SECOND YEAR TRAIL'']),
      (rx_seq [WordBoundary, Alt (rx_str ''third'') (rx_str ''3rd''), year_suffix],
         [''THIRD YEAR TRAIL'']),
      (rx_seq [WordBoundary, Alt (rx_str ''fourth'') (rx_str ''4th''), year_suffix],
         [''FOURTH YEAR TRAIL'']),
      (rx_seq [WordBoundary,
               rx_alts (rx_str ''longterm'')
                 [rx_seq [rx_str ''long'', Star Space, rx_str ''term''],
                  Seq (Sym (Lit CHR ''5'')) (Opt (Sym (Lit CHR ''+''))),
                  rx_seq [rx_str ''beyond'', Star Space, Sym (Lit CHR ''4'')]],
               Star Space, Opt (Alt (rx_str ''year'') (rx_str ''yr'')), Star Space,
               Opt (rx_alts (rx_str ''trail'') [rx_str ''commission'', rx_str ''rate'']),
               WordBoundary],
         [''LONGTERM YEAR TRAIL'']),
      (rx_seq [WordBoundary,
               rx_alts one_to_three
                 [rx_seq [Sym (Lit CHR ''1''), Star Space, rx_str ''through'', Star Space,
                          Sym (Lit CHR ''3'')],
                  rx_seq [rx_str ''first'', Star Space, Sym (Lit CHR ''3'')],
                  rx_seq [rx_str ''initial'', Star Space, Sym (Lit CHR ''3'')]],
               Star Space,
               rx_alts (rx_str ''year'') [rx_str ''years'', rx_str ''yr'', rx_str ''yrs''],
               Star Space,
               Opt (rx_alts (rx_str ''trail'') [rx_str ''commission'', rx_str ''rate'']),
               WordBoundary],
         [''FIRST YEAR TRAIL'', ''SECOND YEAR TRAIL'', ''THIRD YEAR TRAIL'']),
      (rx_seq [WordBoundary,
               Alt (rx_seq [rx_str ''trail'', Star Space, Alt one_to_three (rx_str ''1-3'')])
                   (rx_seq [rx_str ''year'', Opt (Sym (Lit CHR ''s'')), Star Space, rx_str ''1-3'']),
               WordBoundary],
         [''FIRST YEAR TRAIL'', ''SECOND YEAR TRAIL'', ''THIRD YEAR TRAIL''])]"

definition rate_pattern :: rx where
  "rate_pattern = rx_seq [Star Digit, Sym (Lit CHR ''.''), Sym Digit, Opt (Sym Digit),
                          Opt (Sym (Lit CHR ''%''))]"

section \<open>Rates\<close>

text \<open>
  A rate is a Python float read from a decimal numeral with a point and one or two
  fractional digits. The model keeps the decimal value as a rational number. The program
  only tests such a float for being zero, compares it with the exactly representable
  bound 10.0 and with the constants of the correction table, and copies it; rounding to
  the nearest double preserves each of these tests on these numerals, so they have the
  same outcome on the decimal value.

  \<open>py_float\<close> reads the plain decimal syntax (digits, an optional point, digits, at
  least one digit in all). This covers every string the rate pattern can produce; other
  strings are reported as \<open>ValueError\<close>, although Python's \<open>float\<close> also accepts signs,
  exponents and surrounding blanks.
\<close>

definition digits_val :: "string \<Rightarrow> nat" where
  "digits_val ds = foldl (\<lambda>a c. 10 * a + (code c - 48)) 0 ds"

definition py_float :: "string \<Rightarrow> rat option" where
  "py_float s =
     (let ip = takeWhile is_digit s; rest = dropWhile is_digit s
      in case rest of
           [] \<Rightarrow> if ip = [] then None else Some (of_nat (digits_val ip))
         | c # fp \<Rightarrow>
             if c = CHR ''.'' \<and> list_all is_digit fp \<and> (ip \<noteq> [] \<or> fp \<noteq> [])
             then Some (of_nat (digits_val ip) + of_nat (digits_val fp) / 10 ^ length fp)
             else None)"

definition parse_rate :: "string \<Rightarrow> rat option" where
  "parse_rate m = py_float (rstrip_chars ''%'' (replace_char CHR '','' CHR ''.'' m))"

fun truthy :: "rat option \<Rightarrow> bool" where
  "truthy None = False"
| "truthy (Some r) = (r \<noteq> 0)"

definition dict_get :: "('k \<times> 'v option) list \<Rightarrow> 'k \<Rightarrow> 'v option" where
  "dict_get d k = (case map_of d k of None \<Rightarrow> None | Some v \<Rightarrow> v)"

definition empty_rates :: rates where
  "empty_rates = map (\<lambda>bt. (bt, None)) BROKERAGE_TYPES"

text \<open>Lines 155-156 and 198-199: the long-term rate defaults to the fourth-year rate.\<close>

definition longterm_default :: "rates \<Rightarrow> rates" where
  "longterm_default rates =
     (if truthy (dict_get rates ''FOURTH YEAR TRAIL'')
         \<and> \<not> truthy (dict_get rates ''LONGTERM YEAR TRAIL'')
      then AList.update ''LONGTERM YEAR TRAIL'' (dict_get rates ''FOURTH YEAR TRAIL'') rates
      else rates)"

text \<open>Lines 158-159 and 200-201: the record is stored when some rate is truthy.\<close>

definition store_record :: "string \<Rightarrow> rates \<Rightarrow> registry \<Rightarrow> registry" where
  "store_record scheme_name rates scheme_map =
     (if list_ex truthy (filter (\<lambda>r. r \<noteq> None) (map snd rates))
      then AList.update scheme_name rates scheme_map
      else scheme_map)"

text \<open>
  The tier classifier: the rules are tried in order and the first one that matches
  decides (lines 124-128 and 180-183).
\<close>

fun first_match :: "(rx \<times> string list) list \<Rightarrow> string \<Rightarrow> string list option" where
  "first_match [] s = None"
| "first_match ((pattern, brokerage_types) # ps) s =
     (if re_search True pattern s then Some brokerage_types else first_match ps s)"

definition classify :: "string \<Rightarrow> string list" where
  "classify s = (case first_match BROKERAGE_COLUMN_PATTERNS s of None \<Rightarrow> [] | Some bts \<Rightarrow> bts)"

definition footer_markers :: "string list" where
  "footer_markers = [''scheme name'', ''total'', ''aggregate'']"

section \<open>The document source\<close>

text \<open>
  The PDF library is outside the program. A document is what \<open>pdfplumber.open\<close> gives
  for a password: an exception or the pages; a page gives its tables and its text, and
  either call may raise. A table is a list of rows of cells, and a cell is a string or
  \<open>None\<close>.
\<close>

datatype error = PdfError

type_synonym cell = "string option"
type_synonym table = "cell list list"

record page =
  extract_tables :: "error + table list"
  extract_text :: "error + string"

type_synonym document = "string option \<Rightarrow> error + page list"

definition cell_truthy :: "cell \<Rightarrow> bool" where
  "cell_truthy cell = (case cell of None \<Rightarrow> False | Some s \<Rightarrow> s \<noteq> [])"

definition str_cell :: "cell \<Rightarrow> string" where
  "str_cell cell = (case cell of None \<Rightarrow> ''None'' | Some s \<Rightarrow> s)"

section \<open>The table extractor\<close>

definition header_of :: "cell list \<Rightarrow> string list" where
  "header_of row = map (\<lambda>cell. if cell_truthy cell then normalize (str_cell cell) else []) row"

text \<open>Lines 119-128: one header cell, at index \<open>i\<close>, is entered into the column mapping.\<close>

definition map_column :: "nat \<times> string \<Rightarrow> (string \<times> nat) list \<Rightarrow> (string \<times> nat) list" where
  "map_column icol col_mapping =
     (let i = fst icol; col_lower = lower (snd icol)
      in if list_ex (\<lambda>x. contains x col_lower) [''scheme'', ''fund'', ''name'']
         then AList.update ''SCHEME'' i col_mapping
         else case first_match BROKERAGE_COLUMN_PATTERNS col_lower of
                None \<Rightarrow> col_mapping
              | Some brokerage_types \<Rightarrow> fold (\<lambda>bt. AList.update bt i) brokerage_types col_mapping)"

definition column_mapping :: "string list \<Rightarrow> (string \<times> nat) list" where
  "column_mapping header = fold map_column (enumerate 0 header) []"

text \<open>Lines 141-153: the rate of one mapped column is read from its cell of the row.\<close>

definition read_rate :: "cell list \<Rightarrow> string \<times> nat \<Rightarrow> rates \<Rightarrow> rates" where
  "read_rate row btcol rates =
     (let bt = fst btcol; col_idx = snd btcol
      in if bt = ''SCHEME'' \<or> length row \<le> col_idx then rates
         else let cell_value = (if cell_truthy (row ! col_idx)
                                then strip (str_cell (row ! col_idx)) else [])
              in case re_findall False rate_pattern cell_value of
                   [] \<Rightarrow> rates
                 | m # _ \<Rightarrow>
                     (case parse_rate m of
                        None \<Rightarrow> rates
                      | Some rate_value \<Rightarrow>
                          if rate_value > MAX_REASONABLE_RATE then rates
                          else AList.update bt (Some rate_value) rates))"

definition row_rates :: "(string \<times> nat) list \<Rightarrow> cell list \<Rightarrow> rates" where
  "row_rates col_mapping row = fold (read_rate row) col_mapping empty_rates"

text \<open>Lines 133-159: one data row; \<open>scheme_col\<close> is \<open>col_mapping["SCHEME"]\<close>.\<close>

definition process_row ::
  "(string \<times> nat) list \<Rightarrow> nat \<Rightarrow> cell list \<Rightarrow> registry \<Rightarrow> registry" where
  "process_row col_mapping scheme_col row sm =
     (if row = [] \<or> length row \<le> scheme_col then sm
      else let scheme_name = normalize (str_cell (row ! scheme_col))
           in if scheme_name = [] \<or> list_ex (\<lambda>x. contains x scheme_name) footer_markers
              then sm
              else store_record scheme_name (longterm_default (row_rates col_mapping row)) sm)"

text \<open>
  The state of one decode attempt: the registry, the flag of line 107, and, for the
  properties about control flow, whether the text fallback was entered on each page
  processed so far.
\<close>

record attempt =
  scheme_map :: registry
  tables_found :: bool
  fallback_ran :: "bool list"

definition process_table :: "table \<Rightarrow> attempt \<Rightarrow> attempt" where
  "process_table table st =
     (if length table < 2 then st
      else let st1 = st\<lparr>tables_found := True\<rparr>;
               col_mapping = column_mapping (header_of (hd table))
           in case map_of col_mapping ''SCHEME'' of
                None \<Rightarrow> st1
              | Some scheme_col \<Rightarrow>
                  st1\<lparr>scheme_map :=
                        fold (process_row col_mapping scheme_col) (tl table) (scheme_map st1)\<rparr>)"

section \<open>The text fallback extractor\<close>

text \<open>Lines 184-197: one number of a sub-line is assigned to tiers.\<close>

definition assign_rate :: "string list \<Rightarrow> string \<Rightarrow> rates \<times> nat \<Rightarrow> rates \<times> nat" where
  "assign_rate matched_brokerage_types rate acc =
     (let rates = fst acc; rate_idx = snd acc
      in case parse_rate rate of
           None \<Rightarrow> acc
         | Some rate_value \<Rightarrow>
             if rate_value > MAX_REASONABLE_RATE then acc
             else if matched_brokerage_types \<noteq> [] \<and> rate_idx < length matched_brokerage_types
             then (fold (\<lambda>bt. AList.update bt (Some rate_value)) matched_brokerage_types rates,
                   rate_idx + length matched_brokerage_types)
             else if rate_idx < length BROKERAGE_TYPES
             then (AList.update (BROKERAGE_TYPES ! rate_idx) (Some rate_value) rates,
                   rate_idx + 1)
             else acc)"

definition scan_subline :: "string \<Rightarrow> rates \<times> nat \<Rightarrow> rates \<times> nat" where
  "scan_subline raw acc =
     (let subline = normalize (strip raw);
          sub_matches = re_findall False rate_pattern subline
      in fold (assign_rate (classify subline)) sub_matches acc)"

text \<open>Lines 174-197: the rates of a block, read from the window \<open>lines[i : i + 5]\<close>.\<close>

definition block_rates :: "string list \<Rightarrow> rates" where
  "block_rates window = fst (fold scan_subline window (empty_rates, 0))"

text \<open>Lines 167-201: the line at the head of \<open>rest\<close>, which is \<open>lines[i:]\<close>.\<close>

definition process_line :: "string list \<Rightarrow> registry \<Rightarrow> registry" where
  "process_line rest sm =
     (case rest of
        [] \<Rightarrow> sm
      | raw # _ \<Rightarrow>
          let line = normalize (strip raw)
          in if line = [] \<or> list_ex (\<lambda>x. contains x line) footer_markers then sm
             else let matches = re_findall False rate_pattern line;
                      scheme_name = normalize (strip (re_sub_empty False rate_pattern line))
                  in if matches \<noteq> [] \<and> scheme_name \<noteq> []
                        \<and> \<not> list_ex (\<lambda>bt. contains (lower bt) scheme_name) BROKERAGE_TYPES
                     then store_record scheme_name
                            (longterm_default (block_rates (take (length BROKERAGE_TYPES) rest)))
                            sm
                     else sm)"

fun text_lines :: "string list \<Rightarrow> registry \<Rightarrow> registry" where
  "text_lines [] sm = sm"
| "text_lines (l # ls) sm = text_lines ls (process_line (l # ls) sm)"

definition text_fallback :: "string \<Rightarrow> registry \<Rightarrow> registry" where
  "text_fallback text sm = (if text = [] then sm else text_lines (splitlines text) sm)"

section \<open>Pages, attempts and the registry\<close>

definition fallback_due :: "attempt \<Rightarrow> bool" where
  "fallback_due st = (\<not> tables_found st \<or> scheme_map st = [])"

definition process_page :: "page \<Rightarrow> attempt \<Rightarrow> error option \<times> attempt" where
  "process_page pg st =
     (case extract_tables pg of
        Inl e \<Rightarrow> (Some e, st)
      | Inr tables \<Rightarrow>
          let st1 = fold process_table tables st
          in if fallback_due st1
             then let st2 = st1\<lparr>fallback_ran := fallback_ran st1 @ [True]\<rparr>
                  in case extract_text pg of
                       Inl e \<Rightarrow> (Some e, st2)
                     | Inr text \<Rightarrow> (None, st2\<lparr>scheme_map := text_fallback text (scheme_map st2)\<rparr>)
             else (None, st1\<lparr>fallback_ran := fallback_ran st1 @ [False]\<rparr>))"

fun process_pages :: "page list \<Rightarrow> attempt \<Rightarrow> error option \<times> attempt" where
  "process_pages [] st = (None, st)"
| "process_pages (pg # pgs) st =
     (case process_page pg st of
        (Some e, st') \<Rightarrow> (Some e, st')
      | (None, st') \<Rightarrow> process_pages pgs st')"

text \<open>Lines 204-210: the correction table overrides the rates of the funds it lists.\<close>

definition enforce_rate :: "string \<times> rat \<Rightarrow> rates \<Rightarrow> rates" where
  "enforce_rate expected rates =
     (if dict_get rates (fst expected) \<noteq> Some (snd expected)
      then AList.update (fst expected) (Some (snd expected)) rates
      else rates)"

definition validate_scheme :: "string \<times> (string \<times> rat) list \<Rightarrow> registry \<Rightarrow> registry" where
  "validate_scheme entry sm =
     (case map_of sm (fst entry) of
        None \<Rightarrow> sm
      | Some rates \<Rightarrow> AList.update (fst entry) (fold enforce_rate (snd entry) rates) sm)"

definition apply_validations :: "registry \<Rightarrow> registry" where
  "apply_validations sm = fold validate_scheme SCHEME_VALIDATIONS sm"

definition new_attempt :: "registry \<Rightarrow> attempt" where
  "new_attempt sm = \<lparr>scheme_map = sm, tables_found = False, fallback_ran = []\<rparr>"

text \<open>
  Lines 101-216: the registry is created once, before the loop over the passwords, and
  the loop carries it from one attempt to the next; an exception ends the attempt and
  leaves in the registry what the attempt had stored.
\<close>

definition password_or_None :: "string \<Rightarrow> string option" where
  "password_or_None password = (if password = [] then None else Some password)"

fun try_passwords :: "document \<Rightarrow> string list \<Rightarrow> registry \<Rightarrow> registry" where
  "try_passwords pdf [] sm = []"
| "try_passwords pdf (password # rest) sm =
     (case pdf (password_or_None password) of
        Inl e \<Rightarrow> try_passwords pdf rest sm
      | Inr pages \<Rightarrow>
          (case process_pages pages (new_attempt sm) of
             (Some e, st) \<Rightarrow> try_passwords pdf rest (scheme_map st)
           | (None, st) \<Rightarrow>
               if scheme_map st \<noteq> [] then apply_validations (scheme_map st)
               else try_passwords pdf rest (scheme_map st)))"

definition extract_scheme_data :: "document \<Rightarrow> string list \<Rightarrow> registry" where
  "extract_scheme_data pdf passwords = try_passwords pdf passwords []"

section \<open>The spreadsheet and the rate resolver\<close>

text \<open>
  The workbook at \<open>excel_path\<close> is either unreadable or gives its first sheet, column
  by column: the label that \<open>pd.read_excel\<close> gives the column (the text of its header
  cell, or a number or a date when the header cell holds one) with the cells below it,
  one for each row. A cell holds a text, a number, a date (year, month, day) or nothing;
  truth values and formula errors are left out.

  The data frame has, for each column, its values: a text, a number, a timestamp (of
  which the date is kept) or the missing value. The libraries are outside the program;
  what the model needs of them is taken as parameters: the similarity score of
  \<open>fuzzywuzzy\<close> (its processor and scorer together, 0 to 100), the date parser of
  \<open>pd.to_datetime\<close> for values that are not timestamps, the printed form of a number,
  and whether \<open>to_excel\<close> manages to write a frame.
\<close>

datatype raw_cell = RawText string | RawNumber rat | RawDate nat nat nat | RawEmpty

datatype label = Name string | NumberLabel rat | DateLabel nat nat nat

datatype workbook = Unreadable | Sheet "(label \<times> raw_cell list) list"

datatype excel_value = Text string | Number rat | Timestamp nat nat nat | NaN

type_synonym dataframe = "(string \<times> excel_value list) list"

datatype excel_error = InternalServerError string | AttributeError

record library =
  fuzz_score :: "string \<Rightarrow> string \<Rightarrow> nat"
  parse_datetime :: "excel_value \<Rightarrow> (nat \<times> nat \<times> nat) option"
  float_repr :: "rat \<Rightarrow> string"
  to_excel_ok :: "dataframe \<Rightarrow> bool"

text \<open>
  Line 227, \<open>pd.read_excel(excel_path)\<close> with its defaults: an empty cell is read as
  the missing value, and so is a text cell that spells one of the default missing-value
  markers of pandas.
\<close>

definition na_values :: "string list" where
  "na_values = [[], ''#N/A'', ''#N/A N/A'', ''#NA'', ''-1.#IND'', ''-1.#QNAN'', ''-NaN'',
                ''-nan'', ''1.#IND'', ''1.#QNAN'', ''<NA>'', ''N/A'', ''NA'', ''NULL'', ''NaN'',
                ''None'', ''n/a'', ''nan'', ''null'']"

definition read_cell :: "raw_cell \<Rightarrow> excel_value" where
  "read_cell c =
     (case c of
        RawText s \<Rightarrow> if s \<in> set na_values then NaN else Text s
      | RawNumber r \<Rightarrow> Number r
      | RawDate y m d \<Rightarrow> Timestamp y m d
      | RawEmpty \<Rightarrow> NaN)"

definition read_columns :: "('l \<times> raw_cell list) list \<Rightarrow> ('l \<times> excel_value list) list" where
  "read_columns cols = map (\<lambda>col. (fst col, map read_cell (snd col))) cols"

definition read_excel :: "workbook \<Rightarrow> excel_error + (label \<times> excel_value list) list" where
  "read_excel wb =
     (case wb of
        Unreadable \<Rightarrow> Inl (InternalServerError ''Failed to read Excel file'')
      | Sheet cols \<Rightarrow> Inr (read_columns cols))"

text \<open>
  Line 231 calls \<open>col.lower()\<close> on every column label; a label that is not a string
  has no such method and the call raises \<open>AttributeError\<close>. \<open>named_columns\<close> gives the
  columns by name when every label is a string, and nothing otherwise.
\<close>

fun named_columns :: "(label \<times> 'a) list \<Rightarrow> (string \<times> 'a) list option" where
  "named_columns [] = Some []"
| "named_columns (col # cols) =
     (case fst col of
        Name s \<Rightarrow> map_option (\<lambda>rest. (s, snd col) # rest) (named_columns cols)
      | NumberLabel r \<Rightarrow> None
      | DateLabel y m d \<Rightarrow> None)"

function show_nat :: "nat \<Rightarrow> string" where
  "show_nat n = (if n < 10 then [ascii_digits ! n]
                 else show_nat (n div 10) @ [ascii_digits ! (n mod 10)])"
  by pat_completeness auto
termination
  by (relation "measure id") auto

definition pad2 :: "nat \<Rightarrow> string" where
  "pad2 n = (if n < 10 then CHR ''0'' # show_nat n else show_nat n)"

text \<open>\<open>str(x)\<close> of a value of a row.\<close>

definition py_str :: "library \<Rightarrow> excel_value \<Rightarrow> string" where
  "py_str lib x =
     (case x of
        Text s \<Rightarrow> s
      | Number r \<Rightarrow> float_repr lib r
      | Timestamp y m d \<Rightarrow> show_nat y @ ''-'' @ pad2 m @ ''-'' @ pad2 d @ '' 00:00:00''
      | NaN \<Rightarrow> ''nan'')"

text \<open>
  Line 233: \<open>pd.to_datetime(..., errors="coerce").dt.strftime("%d-%m-%Y")\<close> on one value.
  A timestamp is kept; any other value is parsed, and what does not parse becomes the
  missing value.
\<close>

definition to_datetime :: "library \<Rightarrow> excel_value \<Rightarrow> (nat \<times> nat \<times> nat) option" where
  "to_datetime lib x =
     (case x of
        Timestamp y m d \<Rightarrow> Some (y, m, d)
      | NaN \<Rightarrow> None
      | _ \<Rightarrow> parse_datetime lib x)"

definition strftime_dmy :: "(nat \<times> nat \<times> nat) option \<Rightarrow> excel_value" where
  "strftime_dmy t =
     (case t of
        None \<Rightarrow> NaN
      | Some (y, m, d) \<Rightarrow> Text (pad2 d @ ''-'' @ pad2 m @ ''-'' @ show_nat y))"

definition date_columns :: "dataframe \<Rightarrow> string list" where
  "date_columns df =
     filter (\<lambda>col. contains ''date'' (lower col) \<and> \<not> contains ''brokerage'' (lower col))
       (map fst df)"

definition format_date_column :: "library \<Rightarrow> dataframe \<Rightarrow> dataframe" where
  "format_date_column lib df =
     (case date_columns df of
        [] \<Rightarrow> df
      | col # _ \<Rightarrow>
          (case map_of df col of
             None \<Rightarrow> df
           | Some vals \<Rightarrow> AList.update col (map (\<lambda>x. strftime_dmy (to_datetime lib x)) vals) df))"

definition normalized_keys :: "registry \<Rightarrow> registry" where
  "normalized_keys sm = fold (\<lambda>kv. AList.update (normalize (fst kv)) (snd kv)) sm []"

datatype tier_ref = One string | Many "string list"

definition first_three :: tier_ref where
  "first_three = Many [''FIRST YEAR TRAIL'', ''SECOND YEAR TRAIL'', ''THIRD YEAR TRAIL'']"

definition brokerage_type_map :: "(string \<times> tier_ref) list" where
  "brokerage_type_map =
     [(''FIRST YEAR TRAIL'', One ''FIRST YEAR TRAIL''),
      (''SECOND YEAR TRAIL'', One ''SECOND YEAR TRAIL''),
      (''THIRD YEAR TRAIL'', One ''THIRD YEAR TRAIL''),
      (''FOURTH YEAR TRAIL'', One ''FOURTH YEAR TRAIL''),
      (''LONGTERM YEAR TRAIL'', One ''LONGTERM YEAR TRAIL''),
      (''FOURTH YEAR'', One ''FOURTH YEAR TRAIL''),
      (''4TH YEAR TRAIL'', One ''FOURTH YEAR TRAIL''),
      (''4TH YEAR'', One ''FOURTH YEAR TRAIL''),
      (''LONG TERM TRAIL'', One ''LONGTERM YEAR TRAIL''),
      (''LONG TERM'', One ''LONGTERM YEAR TRAIL''),
      (''1 TO 3 YEARS TRAIL'', first_three),
      (''1-3 YEARS TRAIL'', first_three),
      (''1 TO 3 YEARS'', first_three),
      (''1-3 YEARS'', first_three),
      (''TRAIL 1-3'', first_three),
      (''TRAIL YEARS 1-3'', first_three)]"

text \<open>
  \<open>process.extractOne(query, choices, score_cutoff)\<close> of \<open>fuzzywuzzy\<close>: the choices
  that score at least the cutoff are kept, and the first of those with the highest score
  is returned, with its score; \<open>None\<close> when no choice is kept.
\<close>

definition extractOne ::
  "(string \<Rightarrow> string \<Rightarrow> nat) \<Rightarrow> string \<Rightarrow> string list \<Rightarrow> nat \<Rightarrow> (string \<times> nat) option" where
  "extractOne scorer query choices score_cutoff =
     (case filter (\<lambda>cs. score_cutoff \<le> snd cs)
             (map (\<lambda>choice. (choice, scorer query choice)) choices) of
        [] \<Rightarrow> None
      | x # xs \<Rightarrow> Some (fold (\<lambda>c best. if snd best < snd c then c else best) xs x))"

text \<open>Lines 271-279 and 286-293: the rate of a record for the resolved tier or tiers.\<close>

definition lookup_rate :: "rates \<Rightarrow> tier_ref \<Rightarrow> rat option" where
  "lookup_rate rates t =
     (case t of
        One bt \<Rightarrow> dict_get rates bt
      | Many bts \<Rightarrow>
          (case filter (\<lambda>rate. rate \<noteq> None) (map (dict_get rates) bts) of
             [] \<Rightarrow> None
           | rate # _ \<Rightarrow> rate))"

definition row_get :: "(string \<times> excel_value) list \<Rightarrow> string \<Rightarrow> excel_value \<Rightarrow> excel_value" where
  "row_get row name fallback = (case map_of row name of None \<Rightarrow> fallback | Some v \<Rightarrow> v)"

definition get_brokerage ::
  "library \<Rightarrow> registry \<Rightarrow> (string \<times> excel_value) list \<Rightarrow> rat option" where
  "get_brokerage lib normalized_pdf_keys row =
     (let scheme = normalize (py_str lib (row_get row ''Schemename'' (Text [])));
          brokerage_type = upper (strip (py_str lib (row_get row ''BrokerageName'' (Text []))));
          standardized = (case map_of brokerage_type_map brokerage_type of
                            None \<Rightarrow> One brokerage_type
                          | Some t \<Rightarrow> t)
      in if (case standardized of One bt \<Rightarrow> bt \<notin> set BROKERAGE_TYPES | Many bts \<Rightarrow> False)
         then None
         else if scheme = [] \<or> standardized = One [] \<or> standardized = Many [] then None
         else case map_of normalized_pdf_keys scheme of
                Some rates \<Rightarrow> lookup_rate rates standardized
              | None \<Rightarrow>
                  (case extractOne (fuzz_score lib) scheme (map fst normalized_pdf_keys) 90 of
                     None \<Rightarrow> None
                   | Some result \<Rightarrow>
                       (case map_of normalized_pdf_keys (fst result) of
                          None \<Rightarrow> None
                        | Some rates \<Rightarrow> lookup_rate rates standardized)))"

definition nrows :: "dataframe \<Rightarrow> nat" where
  "nrows df = (case df of [] \<Rightarrow> 0 | col # _ \<Rightarrow> length (snd col))"

definition row_at :: "dataframe \<Rightarrow> nat \<Rightarrow> (string \<times> excel_value) list" where
  "row_at df i = map (\<lambda>col. (fst col, if i < length (snd col) then snd col ! i else NaN)) df"

definition rate_value :: "rat option \<Rightarrow> excel_value" where
  "rate_value r = (case r of None \<Rightarrow> NaN | Some v \<Rightarrow> Number v)"

text \<open>
  Lines 231-298, on a frame whose labels are strings: the first date column is
  reformatted, the resolved rate of each row goes into the column T15, and the column
  B15 is a copy of it.
\<close>

definition fill_frame :: "library \<Rightarrow> dataframe \<Rightarrow> registry \<Rightarrow> dataframe" where
  "fill_frame lib df scheme_registry =
     (let df1 = format_date_column lib df;
          normalized_pdf_keys = normalized_keys scheme_registry;
          t15 = map (\<lambda>i. rate_value (get_brokerage lib normalized_pdf_keys (row_at df1 i)))
                  [0..<nrows df1]
      in AList.update ''B15'' t15 (AList.update ''T15'' t15 df1))"

text \<open>
  Lines 224-303: the workbook is read, which may fail; the labels are lower-cased, which
  raises when one of them is not a string; the frame is filled and written, which may
  fail. The result is the exception raised or the frame that was written.
\<close>

definition fill_excel :: "library \<Rightarrow> workbook \<Rightarrow> registry \<Rightarrow> excel_error + dataframe" where
  "fill_excel lib wb scheme_registry =
     (case read_excel wb of
        Inl e \<Rightarrow> Inl e
      | Inr frame \<Rightarrow>
          (case named_columns frame of
             None \<Rightarrow> Inl AttributeError
           | Some df \<Rightarrow>
               let out = fill_frame lib df scheme_registry
               in if to_excel_ok lib out then Inr out
                  else Inl (InternalServerError ''Failed to write output Excel file'')))"

section \<open>Predicates of the properties\<close>

text \<open>A rate that is absent or exactly zero; a rate within the sanity ceiling.\<close>

definition absent_or_zero :: "rat option \<Rightarrow> bool" where
  "absent_or_zero r = (r = None \<or> r = Some 0)"

definition rate_bounded :: "rat option \<Rightarrow> bool" where
  "rate_bounded v = (case v of None \<Rightarrow> True | Some r \<Rightarrow> r \<le> MAX_REASONABLE_RATE)"

definition rates_bounded :: "rates \<Rightarrow> bool" where
  "rates_bounded rates = list_all rate_bounded (map snd rates)"

definition registry_bounded :: "registry \<Rightarrow> bool" where
  "registry_bounded sm = list_all rates_bounded (map snd sm)"

text \<open>
  A table that sets the flag of line 115 has at least two rows; a page has such a table;
  the state of an attempt once the tables of a page are processed.
\<close>

definition usable_table :: "table \<Rightarrow> bool" where
  "usable_table table = (2 \<le> length table)"

definition page_has_table :: "page \<Rightarrow> bool" where
  "page_has_table pg =
     (case extract_tables pg of Inl e \<Rightarrow> False | Inr tables \<Rightarrow> list_ex usable_table tables)"

definition after_tables :: "page \<Rightarrow> attempt \<Rightarrow> attempt" where
  "after_tables pg st =
     (case extract_tables pg of Inl e \<Rightarrow> st | Inr tables \<Rightarrow> fold process_table tables st)"

text \<open>
  The first statement of \<open>normalize\<close> (line 220), and the phrases that its second
  statement removes from the end.
\<close>

definition clean_text :: "string \<Rightarrow> string" where
  "clean_text text = lower (strip (filter (\<lambda>c. is_word c \<or> is_space c \<or> c = CHR ''.'') text))"

definition plan_phrases :: "string list" where
  "plan_phrases = [''regular plan'', ''reg'', ''institutional plan'', ''ex institutional plan'',
                   ''retail plan'', ''long term plan'']"

text \<open>
  A text ends with a phrase; the text before that phrase; a text without its trailing
  blanks. A text ends with a duplicated plan phrase when it ends with a phrase of the
  list that comes right after the same phrase, blanks apart. It ends with stacked plan
  phrases when it ends with a phrase of the list that comes right after a phrase of
  the list, the same or another one, blanks apart.
\<close>

definition ends_with :: "string \<Rightarrow> string \<Rightarrow> bool" where
  "ends_with p s = (length p \<le> length s \<and> drop (length s - length p) s = p)"

definition without_suffix :: "string \<Rightarrow> string \<Rightarrow> string" where
  "without_suffix p s = take (length s - length p) s"

definition rstrip :: "string \<Rightarrow> string" where
  "rstrip s = rev (dropWhile is_space (rev s))"

definition duplicated_plan_phrase :: "string \<Rightarrow> bool" where
  "duplicated_plan_phrase t =
     list_ex (\<lambda>p. ends_with p t \<and> ends_with p (rstrip (without_suffix p t))) plan_phrases"

definition stacked_plan_phrases :: "string \<Rightarrow> bool" where
  "stacked_plan_phrases t =
     list_ex (\<lambda>q. ends_with q t
                 \<and> list_ex (\<lambda>p. ends_with p (rstrip (without_suffix q t))) plan_phrases)
       plan_phrases"

text \<open>
  A character that the first substitution keeps; a text of kept characters that
  lower-casing leaves as they are; a text without blanks at its ends.
\<close>

definition kept :: "char \<Rightarrow> bool" where
  "kept c = (is_word c \<or> is_space c \<or> c = CHR ''.'')"

definition settled :: "string \<Rightarrow> bool" where
  "settled s = list_all (\<lambda>c. kept c \<and> lower_char c = c) s"

definition stripped :: "string \<Rightarrow> bool" where
  "stripped s = (s = [] \<or> (\<not> is_space (hd s) \<and> \<not> is_space (last s)))"

section \<open>Example documents\<close>

text \<open>Scenario A of the specification: one page with one table of one data row.\<close>

definition scenario_table :: table where
  "scenario_table = [[Some ''Scheme Name'', Some ''1st Yr Trail'', Some ''2nd Yr Trail''],
                     [Some ''ABC Fund'', Some ''0.50%'', Some ''0.30%'']]"

definition scenario_registry :: registry where
  "scenario_registry =
     [(''abc fund'',
       [(''FIRST YEAR TRAIL'', Some (1 / 2)), (''SECOND YEAR TRAIL'', Some (3 / 10)),
        (''THIRD YEAR TRAIL'', None), (''FOURTH YEAR TRAIL'', None),
        (''LONGTERM YEAR TRAIL'', None)])]"

definition scenario_page :: page where
  "scenario_page = \<lparr>extract_tables = Inr [scenario_table], extract_text = Inr []\<rparr>"

definition scenario_pdf :: document where
  "scenario_pdf = (\<lambda>password. Inr [scenario_page])"

text \<open>A table whose fourth-year column reads 0.00% and that has no long-term column.\<close>

definition zero_fourth_table :: table where
  "zero_fourth_table = [[Some ''Scheme Name'', Some ''1st Yr Trail'', Some ''4th Yr Trail''],
                        [Some ''ABC Fund'', Some ''0.50%'', Some ''0.00%'']]"

definition zero_fourth_pdf :: document where
  "zero_fourth_pdf =
     (\<lambda>password. Inr [\<lparr>extract_tables = Inr [zero_fourth_table], extract_text = Inr []\<rparr>])"

text \<open>
  A document source that opens with the first two passwords. Under the first, the first
  page holds the table of scenario A and reading the second page raises; under the
  second, the one page holds a table for another fund.
\<close>

definition other_table :: table where
  "other_table = [[Some ''Scheme Name'', Some ''1st Yr Trail''],
                  [Some ''XYZ Fund'', Some ''0.75%'']]"

definition broken_page :: page where
  "broken_page = \<lparr>extract_tables = Inl PdfError, extract_text = Inl PdfError\<rparr>"

definition leaking_pdf :: document where
  "leaking_pdf =
     (\<lambda>password.
        if password = Some ''ARN100481'' then Inr [scenario_page, broken_page]
        else if password = Some ''AAHCP7661C''
        then Inr [\<lparr>extract_tables = Inr [other_table], extract_text = Inr []\<rparr>]
        else Inl PdfError)"

text \<open>A row, and a block of text lines, whose rates all read zero.\<close>

definition zero_mapping :: "(string \<times> nat) list" where
  "zero_mapping = [(''SCHEME'', 0), (''FIRST YEAR TRAIL'', 1), (''FOURTH YEAR TRAIL'', 2)]"

definition zero_row :: "cell list" where
  "zero_row = [Some ''ABC Fund'', Some ''0.00%'', Some ''0.0'']"

definition zero_lines :: "string list" where
  "zero_lines = [''ABC Fund 0.00'', ''0.0'']"

definition zero_longterm_rates :: rates where
  "zero_longterm_rates =
     [(''FIRST YEAR TRAIL'', None), (''SECOND YEAR TRAIL'', None), (''THIRD YEAR TRAIL'', None),
      (''FOURTH YEAR TRAIL'', Some (1 / 2)), (''LONGTERM YEAR TRAIL'', Some 0)]"

text \<open>A table with a cell above the sanity ceiling.\<close>

definition ceiling_pdf :: document where
  "ceiling_pdf =
     (\<lambda>password.
        Inr [\<lparr>extract_tables =
                Inr [[[Some ''Scheme Name'', Some ''1st Yr Trail'', Some ''2nd Yr Trail''],
                      [Some ''ABC Fund'', Some ''0.50%'', Some ''12.50%'']]],
              extract_text = Inr []\<rparr>])"

text \<open>A page without a table whose text names a fund with a rate.\<close>

definition text_only_page :: page where
  "text_only_page = \<lparr>extract_tables = Inr [], extract_text = Inr ''XYZ Fund 0.75%''\<rparr>"







section \<open>Evaluation of the character classes\<close>

lemma is_digit_bits [code]: "is_digit c = digit_bits c"
proof -
  have "\<forall>c. is_digit c = digit_bits c" by code_simp
  then show ?thesis by simp
qed

lemma is_space_bits [code]: "is_space c = space_bits c"
proof -
  have "\<forall>c. is_space c = space_bits c" by code_simp
  then show ?thesis by simp
qed

lemma is_word_bits [code]: "is_word c = word_bits c"
proof -
  have "\<forall>c. is_word c = word_bits c" by code_simp
  then show ?thesis by simp
qed

lemma lower_char_bits [code]: "lower_char c = lower_bits c"
proof -
  have "\<forall>c. lower_char c = lower_bits c" by code_simp
  then show ?thesis by simp
qed

section \<open>The classifier and the scenarios\<close>

text \<open>
  C3. The claim: every fragment in one of the compound-range forms "1 to 3", "1-3" or
  "trail 1-3", with the tolerated year and trail suffixes, is classified as the triple
  first, second and third year. The sixth and seventh rules write the connective as the
  character set \<open>[-to]\<close>, which stands for one character, so the two-letter word "to"
  never matches: the fragment "1 to 3 years" is classified as nothing. The alias table
  of the resolver does list "1 TO 3 YEARS".
\<close>

theorem classify_one_to_three_unmatched:
  "classify ''1 to 3 years'' = []"
  by code_simp

lemma scenario_table_processed:
  "process_table scenario_table (new_attempt []) =
     \<lparr>scheme_map = scenario_registry, tables_found = True, fallback_ran = []\<rparr>"
  by code_simp

lemma scenario_registry_validated: "apply_validations scenario_registry = scenario_registry"
  by code_simp

lemma scenario_pages_processed:
  assumes "extract_tables pg = Inr [scenario_table]"
  shows "process_pages [pg] (new_attempt []) =
           (None, \<lparr>scheme_map = scenario_registry, tables_found = True,
                    fallback_ran = [False]\<rparr>)"
  using assms
  by (simp add: process_page_def scenario_table_processed fallback_due_def
        scenario_registry_def)

text \<open>
  C1. Scenario A: for a document of exactly one page with the one table of header
  Scheme Name, 1st Yr Trail, 2nd Yr Trail and data row ABC Fund, 0.50%, 0.30%, the
  extraction returns the registry with the one record for "abc fund": first year 0.5,
  second year 0.3, the other three tiers absent. The document opens under at least one
  of the passwords tried, and whenever it opens it shows this page; what the page gives
  as text does not matter, since the text is not read.
\<close>

theorem scenario_A:
  assumes opens: "\<exists>password \<in> set passwords. pdf (password_or_None password) \<noteq> Inl PdfError"
    and pages: "\<And>pw pages. pdf pw = Inr pages \<Longrightarrow> pages = [pg]"
    and tables: "extract_tables pg = Inr [scenario_table]"
  shows "extract_scheme_data pdf passwords = scenario_registry"
proof -
  have "try_passwords pdf passwords [] = scenario_registry"
    using opens
  proof (induction passwords)
    case Nil
    then show ?case by simp
  next
    case (Cons password rest)
    show ?case
    proof (cases "pdf (password_or_None password)")
      case (Inl e)
      then have "pdf (password_or_None password) = Inl PdfError"
        by (cases e) simp
      with Cons.prems have "\<exists>pw \<in> set rest. pdf (password_or_None pw) \<noteq> Inl PdfError"
        by auto
      with Cons.IH Inl show ?thesis by simp
    next
      case (Inr ps)
      with pages have "ps = [pg]" by blast
      with Inr show ?thesis
        using scenario_pages_processed [OF tables]
        by (simp add: scenario_registry_validated) (simp add: scenario_registry_def)
    qed
  qed
  then show ?thesis by (simp add: extract_scheme_data_def)
qed

theorem scenario_A_witness:
  "scenario_pdf (password_or_None ''ARN100481'') = Inr [scenario_page]
   \<and> extract_scheme_data scenario_pdf PDF_PASSWORDS =
       [(''abc fund'',
         [(''FIRST YEAR TRAIL'', Some (1 / 2)), (''SECOND YEAR TRAIL'', Some (3 / 10)),
          (''THIRD YEAR TRAIL'', None), (''FOURTH YEAR TRAIL'', None),
          (''LONGTERM YEAR TRAIL'', None)])]"
proof -
  have opens: "\<exists>password \<in> set PDF_PASSWORDS.
                 scenario_pdf (password_or_None password) \<noteq> Inl PdfError"
    by (auto simp: scenario_pdf_def PDF_PASSWORDS_def)
  have pages: "\<And>pw pages. scenario_pdf pw = Inr pages \<Longrightarrow> pages = [scenario_page]"
    by (auto simp: scenario_pdf_def)
  have tables: "extract_tables scenario_page = Inr [scenario_table]"
    by (simp add: scenario_page_def)
  from scenario_A [OF opens pages tables] show ?thesis
    by (simp add: scenario_pdf_def scenario_registry_def)
qed

text \<open>
  C7. The claim: in every record an extractor stores, if the fourth-year rate is set and
  no long-term rate was extracted, the long-term rate equals the fourth-year rate. The
  default of lines 155-156 tests the fourth-year rate for truth, and a rate of 0.0 is
  false: for the row ABC Fund, 0.50%, 0.00% under the header Scheme Name, 1st Yr Trail,
  4th Yr Trail the stored record has the fourth-year rate 0 and no long-term rate.
\<close>

theorem zero_fourth_year_leaves_longterm_unset:
  "extract_scheme_data zero_fourth_pdf PDF_PASSWORDS =
     [(''abc fund'',
       [(''FIRST YEAR TRAIL'', Some (1 / 2)), (''SECOND YEAR TRAIL'', None),
        (''THIRD YEAR TRAIL'', None), (''FOURTH YEAR TRAIL'', Some 0),
        (''LONGTERM YEAR TRAIL'', None)])]"
  by code_simp

text \<open>
  C5. The claim: registries are never merged across decode attempts, and what an
  earlier failed or abandoned attempt had stored is never carried into a later one. The
  registry is created once, before the loop over the passwords (line 101), and nothing
  empties it when an attempt ends in an exception. For the document source
  \<open>leaking_pdf\<close> the first attempt stores the record of "abc fund" and is abandoned at
  its second page; the second attempt stores "xyz fund", and the registry returned holds
  both records.
\<close>

theorem abandoned_attempt_leaks_records:
  "extract_scheme_data leaking_pdf PDF_PASSWORDS =
     [(''abc fund'',
       [(''FIRST YEAR TRAIL'', Some (1 / 2)), (''SECOND YEAR TRAIL'', Some (3 / 10)),
        (''THIRD YEAR TRAIL'', None), (''FOURTH YEAR TRAIL'', None),
        (''LONGTERM YEAR TRAIL'', None)]),
      (''xyz fund'',
       [(''FIRST YEAR TRAIL'', Some (3 / 4)), (''SECOND YEAR TRAIL'', None),
        (''THIRD YEAR TRAIL'', None), (''FOURTH YEAR TRAIL'', None),
        (''LONGTERM YEAR TRAIL'', None)])]"
  by code_simp

section \<open>Rates that are zero\<close>

lemma dict_get_in_values:
  "dict_get d k = Some v \<Longrightarrow> Some v \<in> set (map snd d)"
  by (auto simp: dict_get_def split: option.splits dest!: map_of_SomeD) force

lemma all_zero_not_truthy:
  assumes "list_all absent_or_zero (map snd rates)"
  shows "\<not> truthy (dict_get rates k)"
proof (cases "dict_get rates k")
  case None
  then show ?thesis by simp
next
  case (Some v)
  from dict_get_in_values [OF this] assms have "absent_or_zero (Some v)"
    by (auto simp: list_all_iff)
  with Some show ?thesis by (simp add: absent_or_zero_def)
qed

lemma all_zero_no_default:
  "list_all absent_or_zero (map snd rates) \<Longrightarrow> longterm_default rates = rates"
  by (simp add: longterm_default_def all_zero_not_truthy)

lemma all_zero_not_stored:
  assumes "list_all absent_or_zero (map snd rates)"
  shows "store_record name rates sm = sm"
proof -
  have "\<not> list_ex truthy (filter (\<lambda>r. r \<noteq> None) (map snd rates))"
    using assms by (auto simp: list_all_iff list_ex_iff absent_or_zero_def)
  then show ?thesis by (simp add: store_record_def)
qed

lemma dict_get_update: "dict_get (AList.update k v d) k = v"
  by (simp add: dict_get_def update_conv' split: option.splits)

text \<open>
  C10. A rate of exactly 0.0 behaves as absent while the registry is assembled. A table
  row, and a text block, whose extracted rates are all absent or zero stores no record:
  the registry stays as it was. A fourth-year rate of 0.0 does not set the long-term
  default. A long-term rate that was extracted as 0.0 is overwritten by a fourth-year
  rate that is not zero.
\<close>

theorem zero_rate_is_absent:
  "(list_all absent_or_zero (map snd (row_rates col_mapping row))
      \<longrightarrow> process_row col_mapping scheme_col row sm = sm)
   \<and> (list_all absent_or_zero (map snd (block_rates (take (length BROKERAGE_TYPES) rest)))
      \<longrightarrow> process_line rest sm = sm)
   \<and> (dict_get rates ''FOURTH YEAR TRAIL'' = Some 0 \<longrightarrow> longterm_default rates = rates)
   \<and> (dict_get rates ''FOURTH YEAR TRAIL'' = Some r \<and> r \<noteq> 0
       \<and> dict_get rates ''LONGTERM YEAR TRAIL'' = Some 0
      \<longrightarrow> dict_get (longterm_default rates) ''LONGTERM YEAR TRAIL'' = Some r)"
proof (intro conjI impI)
  assume "list_all absent_or_zero (map snd (row_rates col_mapping row))"
  then show "process_row col_mapping scheme_col row sm = sm"
    by (simp add: process_row_def Let_def all_zero_no_default all_zero_not_stored)
next
  assume "list_all absent_or_zero (map snd (block_rates (take (length BROKERAGE_TYPES) rest)))"
  then show "process_line rest sm = sm"
    by (simp add: process_line_def Let_def all_zero_no_default all_zero_not_stored
        split: list.splits)
next
  assume "dict_get rates ''FOURTH YEAR TRAIL'' = Some 0"
  then show "longterm_default rates = rates"
    by (simp add: longterm_default_def)
next
  assume "dict_get rates ''FOURTH YEAR TRAIL'' = Some r \<and> r \<noteq> 0
          \<and> dict_get rates ''LONGTERM YEAR TRAIL'' = Some 0"
  then show "dict_get (longterm_default rates) ''LONGTERM YEAR TRAIL'' = Some r"
    by (simp add: longterm_default_def dict_get_update)
qed

theorem zero_rate_is_absent_witness:
  "row_rates zero_mapping zero_row = AList.update ''FOURTH YEAR TRAIL'' (Some 0)
      (AList.update ''FIRST YEAR TRAIL'' (Some 0) empty_rates)
   \<and> process_row zero_mapping 0 zero_row scenario_registry = scenario_registry
   \<and> process_line zero_lines scenario_registry = scenario_registry
   \<and> longterm_default (row_rates zero_mapping zero_row) = row_rates zero_mapping zero_row
   \<and> dict_get (longterm_default zero_longterm_rates) ''LONGTERM YEAR TRAIL'' = Some (1 / 2)"
proof -
  have rates: "row_rates zero_mapping zero_row = AList.update ''FOURTH YEAR TRAIL'' (Some 0)
      (AList.update ''FIRST YEAR TRAIL'' (Some 0) empty_rates)"
    by code_simp
  have h1: "list_all absent_or_zero (map snd (row_rates zero_mapping zero_row))"
    by code_simp
  have h2: "list_all absent_or_zero
              (map snd (block_rates (take (length BROKERAGE_TYPES) zero_lines)))"
    by code_simp
  have h3: "dict_get (row_rates zero_mapping zero_row) ''FOURTH YEAR TRAIL'' = Some 0"
    by code_simp
  have h4: "dict_get zero_longterm_rates ''FOURTH YEAR TRAIL'' = Some (1 / 2) \<and> (1 / 2 :: rat) \<noteq> 0
            \<and> dict_get zero_longterm_rates ''LONGTERM YEAR TRAIL'' = Some 0"
    by code_simp
  from zero_rate_is_absent [of zero_mapping zero_row 0 scenario_registry zero_lines
      "row_rates zero_mapping zero_row" "1 / 2"]
    zero_rate_is_absent [of zero_mapping zero_row 0 scenario_registry zero_lines
      zero_longterm_rates "1 / 2"]
    rates h1 h2 h3 h4
  show ?thesis by blast
qed

section \<open>The sanity ceiling\<close>

lemma update_values:
  "list_all P (map snd d) \<Longrightarrow> P v \<Longrightarrow> list_all P (map snd (AList.update k v d))"
  by (induction d) auto

lemma update_rates_bounded:
  "rates_bounded rates \<Longrightarrow> rate_bounded v \<Longrightarrow> rates_bounded (AList.update bt v rates)"
  by (simp add: rates_bounded_def update_values)

lemma update_registry_bounded:
  "registry_bounded sm \<Longrightarrow> rates_bounded rates
   \<Longrightarrow> registry_bounded (AList.update name rates sm)"
  by (simp add: registry_bounded_def update_values)

lemma empty_rates_bounded: "rates_bounded empty_rates"
  by (simp add: rates_bounded_def empty_rates_def rate_bounded_def list_all_iff)

lemma fold_update_bounded:
  "rates_bounded rates \<Longrightarrow> rate_bounded v
   \<Longrightarrow> rates_bounded (fold (\<lambda>bt. AList.update bt v) bts rates)"
  by (induction bts arbitrary: rates) (simp_all add: update_rates_bounded)

lemma dict_get_bounded:
  assumes "rates_bounded rates"
  shows "rate_bounded (dict_get rates k)"
proof (cases "dict_get rates k")
  case None
  then show ?thesis by (simp add: rate_bounded_def)
next
  case (Some v)
  from dict_get_in_values [OF this] assms show ?thesis
    by (auto simp: Some rates_bounded_def list_all_iff)
qed

lemma read_rate_bounded:
  "rates_bounded rates \<Longrightarrow> rates_bounded (read_rate row btcol rates)"
  by (auto simp: read_rate_def Let_def update_rates_bounded rate_bounded_def
      split: list.splits option.splits)

lemma row_rates_bounded: "rates_bounded (row_rates col_mapping row)"
proof -
  have "rates_bounded rates \<Longrightarrow> rates_bounded (fold (read_rate row) cm rates)" for cm rates
    by (induction cm arbitrary: rates) (simp_all add: read_rate_bounded)
  then show ?thesis by (simp add: row_rates_def empty_rates_bounded)
qed

lemma longterm_default_bounded:
  "rates_bounded rates \<Longrightarrow> rates_bounded (longterm_default rates)"
  by (simp add: longterm_default_def update_rates_bounded dict_get_bounded)

lemma store_record_bounded:
  "registry_bounded sm \<Longrightarrow> rates_bounded rates
   \<Longrightarrow> registry_bounded (store_record name rates sm)"
  by (simp add: store_record_def update_registry_bounded)

lemma process_row_bounded:
  "registry_bounded sm \<Longrightarrow> registry_bounded (process_row col_mapping scheme_col row sm)"
  by (simp add: process_row_def Let_def store_record_bounded longterm_default_bounded
      row_rates_bounded)

lemma fold_process_row_bounded:
  "registry_bounded sm
   \<Longrightarrow> registry_bounded (fold (process_row col_mapping scheme_col) rows sm)"
  by (induction rows arbitrary: sm) (simp_all add: process_row_bounded)

lemma process_table_bounded:
  "registry_bounded (scheme_map st) \<Longrightarrow> registry_bounded (scheme_map (process_table table st))"
  by (simp add: process_table_def Let_def fold_process_row_bounded split: option.splits)

lemma fold_process_table_bounded:
  "registry_bounded (scheme_map st)
   \<Longrightarrow> registry_bounded (scheme_map (fold process_table tables st))"
  by (induction tables arbitrary: st) (simp_all add: process_table_bounded)

lemma assign_rate_bounded:
  "rates_bounded (fst acc) \<Longrightarrow> rates_bounded (fst (assign_rate matched rate acc))"
  by (auto simp: assign_rate_def Let_def update_rates_bounded fold_update_bounded
      rate_bounded_def split: option.splits)

lemma scan_subline_bounded:
  "rates_bounded (fst acc) \<Longrightarrow> rates_bounded (fst (scan_subline raw acc))"
proof -
  have "rates_bounded (fst a) \<Longrightarrow> rates_bounded (fst (fold (assign_rate m) rs a))" for m rs a
    by (induction rs arbitrary: a) (simp_all add: assign_rate_bounded)
  then show "rates_bounded (fst acc) \<Longrightarrow> rates_bounded (fst (scan_subline raw acc))"
    by (simp add: scan_subline_def Let_def)
qed

lemma block_rates_bounded: "rates_bounded (block_rates window)"
proof -
  have "rates_bounded (fst a) \<Longrightarrow> rates_bounded (fst (fold scan_subline w a))" for w a
    by (induction w arbitrary: a) (simp_all add: scan_subline_bounded)
  then show ?thesis by (simp add: block_rates_def empty_rates_bounded)
qed

lemma process_line_bounded:
  "registry_bounded sm \<Longrightarrow> registry_bounded (process_line rest sm)"
  by (simp add: process_line_def Let_def store_record_bounded longterm_default_bounded
      block_rates_bounded split: list.splits)

lemma text_lines_bounded:
  "registry_bounded sm \<Longrightarrow> registry_bounded (text_lines ls sm)"
  by (induction ls sm rule: text_lines.induct) (simp_all add: process_line_bounded)

lemma text_fallback_bounded:
  "registry_bounded sm \<Longrightarrow> registry_bounded (text_fallback text sm)"
  by (simp add: text_fallback_def text_lines_bounded)

lemma process_page_bounded:
  "registry_bounded (scheme_map st)
   \<Longrightarrow> registry_bounded (scheme_map (snd (process_page pg st)))"
  by (simp add: process_page_def Let_def fold_process_table_bounded text_fallback_bounded
      split: sum.splits)

lemma process_pages_bounded:
  "registry_bounded (scheme_map st)
   \<Longrightarrow> registry_bounded (scheme_map (snd (process_pages pgs st)))"
proof (induction pgs arbitrary: st)
  case Nil
  then show ?case by simp
next
  case (Cons pg pgs)
  from process_page_bounded [OF Cons.prems, of pg] Cons.IH show ?case
    by (cases "process_page pg st") (auto split: option.splits)
qed

lemma enforce_rate_bounded:
  "rates_bounded rates \<Longrightarrow> snd expected \<le> MAX_REASONABLE_RATE
   \<Longrightarrow> rates_bounded (enforce_rate expected rates)"
  by (simp add: enforce_rate_def update_rates_bounded rate_bounded_def)

lemma fold_enforce_rate_bounded:
  "rates_bounded rates \<Longrightarrow> list_all (\<lambda>e. snd e \<le> MAX_REASONABLE_RATE) es
   \<Longrightarrow> rates_bounded (fold enforce_rate es rates)"
  by (induction es arbitrary: rates) (simp_all add: enforce_rate_bounded)

lemma registry_lookup_bounded:
  "registry_bounded sm \<Longrightarrow> map_of sm name = Some rates \<Longrightarrow> rates_bounded rates"
  by (auto simp: registry_bounded_def list_all_iff dest!: map_of_SomeD)

lemma validate_scheme_bounded:
  "registry_bounded sm \<Longrightarrow> list_all (\<lambda>e. snd e \<le> MAX_REASONABLE_RATE) (snd entry)
   \<Longrightarrow> registry_bounded (validate_scheme entry sm)"
  by (auto simp: validate_scheme_def update_registry_bounded fold_enforce_rate_bounded
      registry_lookup_bounded split: option.splits)

lemma apply_validations_bounded:
  assumes "registry_bounded sm"
  shows "registry_bounded (apply_validations sm)"
proof -
  have "registry_bounded s
        \<Longrightarrow> list_all (\<lambda>entry. list_all (\<lambda>e. snd e \<le> MAX_REASONABLE_RATE) (snd entry)) vs
        \<Longrightarrow> registry_bounded (fold validate_scheme vs s)" for vs s
    by (induction vs arbitrary: s) (simp_all add: validate_scheme_bounded)
  moreover have "list_all (\<lambda>entry. list_all (\<lambda>e. snd e \<le> MAX_REASONABLE_RATE) (snd entry))
                   SCHEME_VALIDATIONS"
    by (simp add: SCHEME_VALIDATIONS_def MAX_REASONABLE_RATE_def)
  ultimately show ?thesis using assms by (simp add: apply_validations_def)
qed

lemma empty_registry_bounded: "registry_bounded []"
  by (simp add: registry_bounded_def)

lemma try_passwords_bounded:
  "registry_bounded sm \<Longrightarrow> registry_bounded (try_passwords pdf passwords sm)"
proof (induction passwords arbitrary: sm)
  case Nil
  then show ?case by (simp add: empty_registry_bounded)
next
  case (Cons password rest)
  have start: "registry_bounded (scheme_map (new_attempt sm))"
    using Cons.prems by (simp add: new_attempt_def)
  show ?case
  proof (cases "pdf (password_or_None password)")
    case (Inl e)
    with Cons show ?thesis by simp
  next
    case (Inr pages)
    obtain e st where run: "process_pages pages (new_attempt sm) = (e, st)"
      by (cases "process_pages pages (new_attempt sm)")
    from process_pages_bounded [OF start, of pages] run
    have "registry_bounded (scheme_map st)" by simp
    with Inr run Cons.IH show ?thesis
      by (cases e) (auto simp: apply_validations_bounded)
  qed
qed

text \<open>
  C6. Every rate stored in a record of the registry that the extraction returns, after
  the long-term default and the correction overrides, is at most the sanity ceiling
  10.0: a value above it is dropped when it is read (lines 149-150 and 187-188), the
  default copies a stored rate, and the rates of the correction table lie below the
  ceiling.
\<close>

theorem rates_never_exceed_ceiling:
  assumes "(name, rates) \<in> set (extract_scheme_data pdf passwords)"
    and "(bt, Some r) \<in> set rates"
  shows "r \<le> MAX_REASONABLE_RATE"
proof -
  have "registry_bounded (extract_scheme_data pdf passwords)"
    by (simp add: extract_scheme_data_def try_passwords_bounded empty_registry_bounded)
  with assms(1) have "rates_bounded rates"
    by (force simp: registry_bounded_def list_all_iff)
  with assms(2) have "rate_bounded (Some r)"
    by (force simp: rates_bounded_def list_all_iff)
  then show ?thesis by (simp add: rate_bounded_def)
qed

theorem rates_never_exceed_ceiling_witness:
  "extract_scheme_data ceiling_pdf PDF_PASSWORDS =
     [(''abc fund'',
       [(''FIRST YEAR TRAIL'', Some (1 / 2)), (''SECOND YEAR TRAIL'', None),
        (''THIRD YEAR TRAIL'', None), (''FOURTH YEAR TRAIL'', None),
        (''LONGTERM YEAR TRAIL'', None)])]
   \<and> (1 / 2 :: rat) \<le> MAX_REASONABLE_RATE"
proof -
  have run: "extract_scheme_data ceiling_pdf PDF_PASSWORDS =
     [(''abc fund'',
       [(''FIRST YEAR TRAIL'', Some (1 / 2)), (''SECOND YEAR TRAIL'', None),
        (''THIRD YEAR TRAIL'', None), (''FOURTH YEAR TRAIL'', None),
        (''LONGTERM YEAR TRAIL'', None)])]"
    by code_simp
  from rates_never_exceed_ceiling [of "''abc fund''" _ ceiling_pdf PDF_PASSWORDS
      "''FIRST YEAR TRAIL''" "1 / 2"] run
  show ?thesis by simp
qed

section \<open>When the text fallback runs\<close>

lemma process_table_found:
  "tables_found (process_table table st) = (tables_found st \<or> usable_table table)"
  by (auto simp: process_table_def usable_table_def Let_def split: option.splits)

lemma fold_process_table_found:
  "tables_found (fold process_table tables st) = (tables_found st \<or> list_ex usable_table tables)"
  by (induction tables arbitrary: st) (auto simp: process_table_found)

lemma process_table_log: "fallback_ran (process_table table st) = fallback_ran st"
  by (simp add: process_table_def Let_def split: option.splits)

lemma fold_process_table_log: "fallback_ran (fold process_table tables st) = fallback_ran st"
  by (induction tables arbitrary: st) (simp_all add: process_table_log)

lemma after_tables_found:
  "tables_found (after_tables pg st) = (tables_found st \<or> page_has_table pg)"
  by (simp add: after_tables_def page_has_table_def fold_process_table_found split: sum.splits)

lemma process_page_found:
  "process_page pg st = (None, st') \<Longrightarrow> tables_found st' = (tables_found st \<or> page_has_table pg)"
  by (auto simp: process_page_def Let_def page_has_table_def fold_process_table_found
      split: sum.splits if_splits)

lemma process_page_log:
  "process_page pg st = (None, st')
   \<Longrightarrow> fallback_ran st' = fallback_ran st @ [fallback_due (after_tables pg st)]"
  by (auto simp: process_page_def Let_def after_tables_def fold_process_table_log
      split: sum.splits if_splits)

lemma process_pages_found:
  "process_pages pgs st = (None, st')
   \<Longrightarrow> tables_found st' = (tables_found st \<or> list_ex page_has_table pgs)"
proof (induction pgs arbitrary: st)
  case Nil
  then show ?case by simp
next
  case (Cons pg pgs)
  then show ?case
    by (cases "process_page pg st") (auto split: option.splits dest: process_page_found)
qed

lemma process_pages_append:
  "process_pages (pgs @ [pg]) st =
     (case process_pages pgs st of
        (Some e, st1) \<Rightarrow> (Some e, st1)
      | (None, st1) \<Rightarrow> process_pages [pg] st1)"
  by (induction pgs arbitrary: st) (auto split: prod.splits option.splits)

text \<open>
  C4. The claim: on every page of an opened document the text fallback runs if and only
  if no table was found on that page, or the registry of the attempt is still empty
  after the tables of that page. The flag \<open>tables_found\<close> is cleared once for an
  attempt (line 107), not for each page, so a table on an earlier page counts: in the
  document of two pages below, the second page has no table and the fallback does not
  run on it, and the fund that its text names stays out of the registry.
\<close>

theorem fallback_not_per_page_counterexample:
  "process_pages [scenario_page, text_only_page] (new_attempt []) =
     (None, \<lparr>scheme_map = scenario_registry, tables_found = True,
              fallback_ran = [False, False]\<rparr>)
   \<and> \<not> page_has_table text_only_page
   \<and> text_fallback ''XYZ Fund 0.75%'' scenario_registry \<noteq> scenario_registry"
  by code_simp

text \<open>
  C4, amended. For every page of an opened document that is processed without an
  exception, the text fallback runs on the page if and only if no table of at least two
  rows was found on that page or on an earlier page of the same attempt, or the registry
  (with what earlier attempts left in it) is still empty after the tables of that page.
\<close>

theorem fallback_runs_iff:
  assumes "process_pages (pgs @ [pg]) (new_attempt sm) = (None, st')"
  shows "last (fallback_ran st') =
           (\<not> list_ex page_has_table (pgs @ [pg])
            \<or> scheme_map (after_tables pg (snd (process_pages pgs (new_attempt sm)))) = [])"
proof -
  obtain e st1 where prefix: "process_pages pgs (new_attempt sm) = (e, st1)"
    by (cases "process_pages pgs (new_attempt sm)")
  with assms have e: "e = None" and "process_pages [pg] st1 = (None, st')"
    by (auto simp: process_pages_append split: option.splits)
  then have step: "process_page pg st1 = (None, st')"
    by (cases "process_page pg st1") (auto split: option.splits)
  from prefix e have found: "tables_found st1 = list_ex page_has_table pgs"
    by (auto dest: process_pages_found simp: new_attempt_def)
  from process_page_log [OF step]
  have "last (fallback_ran st') = fallback_due (after_tables pg st1)" by simp
  also have "\<dots> = (\<not> (tables_found st1 \<or> page_has_table pg)
                  \<or> scheme_map (after_tables pg st1) = [])"
    by (simp add: fallback_due_def after_tables_found)
  finally show ?thesis using found prefix by simp
qed

theorem fallback_runs_iff_witness:
  "fst (process_pages ([scenario_page] @ [text_only_page]) (new_attempt [])) = None
   \<and> last (fallback_ran (snd (process_pages ([scenario_page] @ [text_only_page])
                                  (new_attempt [])))) = False
   \<and> list_ex page_has_table ([scenario_page] @ [text_only_page])"
proof -
  have run: "process_pages ([scenario_page] @ [text_only_page]) (new_attempt []) =
               (None, \<lparr>scheme_map = scenario_registry, tables_found = True,
                        fallback_ran = [False, False]\<rparr>)"
    by code_simp
  have found: "list_ex page_has_table ([scenario_page] @ [text_only_page])"
    by code_simp
  from fallback_runs_iff [OF run] found run show ?thesis by simp
qed

section \<open>The columns of the output\<close>










lemma fill_excel_raises:
  "fill_excel lib Unreadable sm = Inl (InternalServerError ''Failed to read Excel file'')"
  "named_columns (read_columns cols) = None
   \<Longrightarrow> fill_excel lib (Sheet cols) sm = Inl AttributeError"
  "named_columns (read_columns cols) = Some df \<Longrightarrow> \<not> to_excel_ok lib (fill_frame lib df sm)
   \<Longrightarrow> fill_excel lib (Sheet cols) sm =
         Inl (InternalServerError ''Failed to write output Excel file'')"
  by (simp_all add: fill_excel_def read_excel_def)




section \<open>Fuzzy resolution below the threshold\<close>




section \<open>Normalizing twice\<close>

lemma rx_run_append:
  "rx_run ic (k1 @ k2) p = concat (map (rx_run ic k2) (rx_run ic k1 p))"
  by (induction ic k1 p rule: rx_run.induct) (auto split: list.splits)

lemma rx_run_cons:
  "rx_run ic (r # k) p = concat (map (rx_run ic k) (rx_run ic [r] p))"
  using rx_run_append [of ic "[r]" k p] by simp

lemma rx_run_consD:
  "q \<in> set (rx_run ic (r # k) p) \<Longrightarrow> \<exists>q1 \<in> set (rx_run ic [r] p). q \<in> set (rx_run ic k q1)"
  by (subst (asm) rx_run_cons) auto

lemma star_sound:
  "q \<in> set (rx_run ic [Star a] p)
   \<Longrightarrow> \<exists>w. snd p = w @ snd q \<and> list_all (sym_ok ic a) w"
proof (induction "snd p" arbitrary: p)
  case Nil
  then show ?case by simp
next
  case (Cons c cs)
  from Cons.hyps(2) have sp: "snd p = c # cs" by simp
  show ?case
  proof (cases "sym_ok ic a c")
    case False
    with Cons.prems sp show ?thesis by auto
  next
    case True
    with Cons.prems sp have "q \<in> set (rx_run ic [Star a] (Some c, cs)) \<or> q = p"
      by auto
    then show ?thesis
    proof
      assume "q = p"
      then show ?thesis by auto
    next
      assume "q \<in> set (rx_run ic [Star a] (Some c, cs))"
      from Cons.hyps(1) [of "(Some c, cs)", OF _ this]
      obtain w where "cs = w @ snd q" "list_all (sym_ok ic a) w" by auto
      with True sp show ?thesis by (intro exI [of _ "c # w"]) simp
    qed
  qed
qed

lemma str_sound:
  "q \<in> set (rx_run False [rx_str ph] p) \<Longrightarrow> snd p = ph @ snd q"
proof (induction ph arbitrary: p rule: rx_str.induct)
  case 1
  then show ?case by simp
next
  case (2 c)
  then show ?case by (auto simp: char_eq_def split: list.splits if_splits)
next
  case (3 c d ds)
  from "3.prems" obtain q1 where q1: "q1 \<in> set (rx_run False [Sym (Lit c)] p)"
    and q: "q \<in> set (rx_run False [rx_str (d # ds)] q1)"
    using rx_run_cons [of False "Sym (Lit c)" "[rx_str (d # ds)]" p] by auto
  from q1 have "snd p = c # snd q1"
    by (auto simp: char_eq_def split: list.splits if_splits)
  with "3.IH" [OF q] show ?case by simp
qed

lemma alternatives_sound:
  "q \<in> set (rx_run False [rx_alts (rx_str ph) (map rx_str phs)] p)
   \<Longrightarrow> \<exists>ph' \<in> set (ph # phs). snd p = ph' @ snd q"
proof (induction phs arbitrary: ph)
  case Nil
  then show ?case by (auto dest: str_sound)
next
  case (Cons ph2 phs)
  from Cons.prems
  have "q \<in> set (rx_run False [rx_str ph] p)
        \<or> q \<in> set (rx_run False [rx_alts (rx_str ph2) (map rx_str phs)] p)"
    by (simp del: rx_str.simps)
  then show ?case
  proof
    assume "q \<in> set (rx_run False [rx_str ph] p)"
    from str_sound [OF this] show ?thesis by simp
  next
    assume "q \<in> set (rx_run False [rx_alts (rx_str ph2) (map rx_str phs)] p)"
    from Cons.IH [OF this] show ?thesis by auto
  qed
qed

lemma plan_alternatives_sound:
  assumes "q \<in> set (rx_run False
             [rx_alts (rx_str ''regular plan'')
                [rx_str ''reg'', rx_str ''institutional plan'',
                 rx_str ''ex institutional plan'', rx_str ''retail plan'',
                 rx_str ''long term plan'']] p)"
  shows "\<exists>ph \<in> set plan_phrases. snd p = ph @ snd q"
proof -
  have "[rx_str ''reg'', rx_str ''institutional plan'', rx_str ''ex institutional plan'',
         rx_str ''retail plan'', rx_str ''long term plan''] =
        map rx_str [''reg'', ''institutional plan'', ''ex institutional plan'',
                    ''retail plan'', ''long term plan'']"
    by (simp del: rx_str.simps)
  with assms alternatives_sound [of q "''regular plan''"
      "[''reg'', ''institutional plan'', ''ex institutional plan'',
        ''retail plan'', ''long term plan'']" p]
  show ?thesis by (simp only: plan_phrases_def)
qed

lemma normalize_alt:
  "normalize x = strip (re_sub_empty False plan_suffix_pattern (clean_text x))"
  by (simp add: normalize_def clean_text_def)

lemma plan_match_form:
  assumes "q \<in> set (rx_run False [plan_suffix_pattern] p)"
  shows "\<exists>w ph w'. snd p = w @ ph @ w' @ snd q \<and> list_all is_space w
           \<and> ph \<in> set plan_phrases \<and> list_all is_space w'
           \<and> (snd q = [] \<or> snd q = [CHR 0x0A])"
proof -
  let ?alts = "rx_alts (rx_str ''regular plan'')
                [rx_str ''reg'', rx_str ''institutional plan'',
                 rx_str ''ex institutional plan'', rx_str ''retail plan'',
                 rx_str ''long term plan'']"
  let ?r2 = "Seq (Star Space) EndOfString"
  let ?r1 = "Seq ?alts ?r2"
  from assms have "q \<in> set (rx_run False [Star Space, ?r1] p)"
    by (simp only: plan_suffix_pattern_def rx_seq.simps rx_run.simps(4))
  from rx_run_consD [OF this] obtain q1 where
    q1: "q1 \<in> set (rx_run False [Star Space] p)" and
    "q \<in> set (rx_run False [?r1] q1)"
    by blast
  then have "q \<in> set (rx_run False [?alts, ?r2] q1)"
    by (simp only: rx_run.simps(4))
  from rx_run_consD [OF this] obtain q2 where
    q2: "q2 \<in> set (rx_run False [?alts] q1)" and
    "q \<in> set (rx_run False [?r2] q2)"
    by blast
  then have "q \<in> set (rx_run False [Star Space, EndOfString] q2)"
    by (simp only: rx_run.simps(4))
  from rx_run_consD [OF this] obtain q3 where
    q3: "q3 \<in> set (rx_run False [Star Space] q2)" and
    q4: "q \<in> set (rx_run False [EndOfString] q3)"
    by blast
  from star_sound [OF q1] obtain w where w: "snd p = w @ snd q1" "list_all is_space w"
    by (auto simp: list_all_iff)
  from plan_alternatives_sound [OF q2] obtain ph where
    ph: "ph \<in> set plan_phrases" "snd q1 = ph @ snd q2" by auto
  from star_sound [OF q3] obtain w' where w': "snd q2 = w' @ snd q3" "list_all is_space w'"
    by (auto simp: list_all_iff)
  from q4 have "q = q3" "snd q3 = [] \<or> snd q3 = [CHR 0x0A]"
    by (auto simp: at_end_def split: if_splits)
  with w ph w' show ?thesis by auto
qed

lemma lower_char_facts:
  "is_space (lower_char c) = is_space c"
  "lower_char (lower_char c) = lower_char c"
  "kept c \<Longrightarrow> kept (lower_char c)"
proof -
  have "\<forall>c. is_space (lower_char c) = is_space c" by code_simp
  then show "is_space (lower_char c) = is_space c" by simp
  have "\<forall>c. lower_char (lower_char c) = lower_char c" by code_simp
  then show "lower_char (lower_char c) = lower_char c" by simp
  have "\<forall>c. kept c \<longrightarrow> kept (lower_char c)" by code_simp
  then show "kept c \<Longrightarrow> kept (lower_char c)" by simp
qed

lemma linefeed_is_space: "is_space (CHR 0x0A)"
  by code_simp

lemma ends_with_append: "ends_with p (u @ p)"
  by (simp add: ends_with_def)

lemma without_suffix_append: "without_suffix p (u @ p) = u"
  by (simp add: without_suffix_def)

lemma strip_parts:
  "\<exists>l r. s = l @ strip s @ r \<and> list_all is_space l \<and> list_all is_space r"
proof -
  let ?d = "dropWhile is_space s"
  have "s = takeWhile is_space s @ ?d" by simp
  moreover have "rev ?d = takeWhile is_space (rev ?d) @ dropWhile is_space (rev ?d)" by simp
  then have "?d = strip s @ rev (takeWhile is_space (rev ?d))"
    by (metis rev_append rev_rev_ident strip_def)
  moreover have "list_all is_space (takeWhile is_space s)"
    by (auto simp: list_all_iff dest: set_takeWhileD)
  moreover have "list_all is_space (rev (takeWhile is_space (rev ?d)))"
    by (auto simp: list_all_iff dest: set_takeWhileD)
  ultimately show ?thesis by metis
qed

lemma strip_subset: "set (strip s) \<subseteq> set s"
  using strip_parts [of s] by (metis Un_upper1 Un_upper2 set_append subset_trans)

lemma strip_stripped: "stripped (strip s)"
proof (cases "strip s = []")
  case True
  then show ?thesis by (simp add: stripped_def)
next
  case False
  let ?d = "dropWhile is_space s"
  let ?e = "dropWhile is_space (rev ?d)"
  from False have e: "?e \<noteq> []" by (simp add: strip_def)
  then have "\<not> is_space (hd ?e)" by (rule hd_dropWhile)
  with e have last: "\<not> is_space (last (strip s))" by (simp add: strip_def last_rev)
  have d: "?d \<noteq> []"
  proof
    assume "?d = []"
    with e show False by simp
  qed
  then have hd_d: "\<not> is_space (hd ?d)" by (rule hd_dropWhile)
  have "rev ?d = takeWhile is_space (rev ?d) @ ?e" by simp
  then have "?d = strip s @ rev (takeWhile is_space (rev ?d))"
    by (metis rev_append rev_rev_ident strip_def)
  with False have "hd ?d = hd (strip s)" by (metis hd_append2)
  with hd_d last show ?thesis by (simp add: stripped_def)
qed

lemma stripped_strip: "stripped s \<Longrightarrow> strip s = s"
proof (cases "s = []")
  case True
  then show ?thesis by (simp add: strip_def)
next
  case False
  assume "stripped s"
  with False have h: "\<not> is_space (hd s)" and l: "\<not> is_space (last s)"
    by (simp_all add: stripped_def)
  from False h have "dropWhile is_space s = s" by (cases s) simp_all
  moreover from False l have "dropWhile is_space (rev s) = rev s"
    by (cases "rev s") (simp_all add: last_rev [symmetric] hd_rev)
  ultimately show ?thesis by (simp add: strip_def)
qed

lemma lower_stripped: "stripped s \<Longrightarrow> stripped (lower s)"
  by (auto simp: stripped_def lower_def hd_map last_map lower_char_facts)

lemma clean_text_stripped: "stripped (clean_text x)"
  by (simp add: clean_text_def lower_stripped strip_stripped)

lemma clean_text_settled: "settled (clean_text x)"
proof -
  have "c \<in> set (strip (filter kept x)) \<Longrightarrow> kept c" for c
    using strip_subset [of "filter kept x"] by auto
  then show ?thesis
    by (auto simp: settled_def clean_text_def lower_def list_all_iff lower_char_facts
        kept_def [symmetric])
qed

lemma settled_clean_text: "settled s \<Longrightarrow> stripped s \<Longrightarrow> clean_text s = s"
proof -
  assume s: "settled s" and st: "stripped s"
  from s have "filter (\<lambda>c. is_word c \<or> is_space c \<or> c = CHR ''.'') s = s"
    by (auto simp: settled_def list_all_iff kept_def filter_id_conv)
  moreover from s have "map lower_char s = s"
    by (auto simp: settled_def list_all_iff intro: map_idI)
  ultimately show ?thesis using st by (simp add: clean_text_def stripped_strip lower_def)
qed

lemma phrases_not_empty: "ph \<in> set plan_phrases \<Longrightarrow> ph \<noteq> []"
  by (auto simp: plan_phrases_def)

lemma no_match_on_empty: "rx_run False [plan_suffix_pattern] (prev, []) = []"
proof (rule ccontr)
  assume "rx_run False [plan_suffix_pattern] (prev, []) \<noteq> []"
  then obtain q where "q \<in> set (rx_run False [plan_suffix_pattern] (prev, []))"
    by (cases "rx_run False [plan_suffix_pattern] (prev, [])") auto
  from plan_match_form [OF this] show False
    by (auto dest: phrases_not_empty)
qed

lemma end_match_form:
  assumes "s \<noteq> [] \<longrightarrow> \<not> is_space (last s)"
    and "q \<in> set (rx_run False [plan_suffix_pattern] (prev, s))"
  shows "snd q = [] \<and> (\<exists>w ph. s = w @ ph \<and> list_all is_space w \<and> ph \<in> set plan_phrases)"
proof -
  from plan_match_form [OF assms(2)] obtain w ph w' where
    form: "s = w @ ph @ w' @ snd q" "list_all is_space w" "ph \<in> set plan_phrases"
      "list_all is_space w'" "snd q = [] \<or> snd q = [CHR 0x0A]"
    by auto
  from form(3) have ph: "ph \<noteq> []" by (rule phrases_not_empty)
  with form(1) have ne: "s \<noteq> []" by simp
  with assms(1) have last: "\<not> is_space (last s)" by simp
  have q: "snd q = []"
  proof (rule ccontr)
    assume "snd q \<noteq> []"
    with form(5) have "snd q = [CHR 0x0A]" by simp
    with form(1) have "last s = CHR 0x0A" by simp
    with last linefeed_is_space show False by simp
  qed
  have "w' = []"
  proof (rule ccontr)
    assume w': "w' \<noteq> []"
    with form(1) q have "last s = last w'" by simp
    moreover from w' form(4) have "is_space (last w')"
      by (auto simp: list_all_iff)
    ultimately show False using last by simp
  qed
  with form q show ?thesis by auto
qed

lemma sub_plan_suffix:
  assumes "s \<noteq> [] \<longrightarrow> \<not> is_space (last s)"
  shows "if search_from False plan_suffix_pattern prev s
         then \<exists>w ph. s = sub_from False plan_suffix_pattern prev s @ w @ ph
                \<and> list_all is_space w \<and> ph \<in> set plan_phrases
         else sub_from False plan_suffix_pattern prev s = s"
  using assms
proof (induction s arbitrary: prev)
  case Nil
  then show ?case by (simp add: rx_ends_def no_match_on_empty)
next
  case (Cons c cs)
  show ?case
  proof (cases "rx_run False [plan_suffix_pattern] (prev, c # cs)")
    case Nil
    from Cons.prems have "cs \<noteq> [] \<longrightarrow> \<not> is_space (last cs)" by auto
    from Cons.IH [OF this, of "Some c"] Nil show ?thesis
      by (auto simp: rx_ends_def)
  next
    case (Cons q qs)
    then have "q \<in> set (rx_run False [plan_suffix_pattern] (prev, c # cs))" by simp
    from end_match_form [OF Cons.prems this] Cons show ?thesis
      by (auto simp: rx_ends_def)
  qed
qed

lemma search_plan_suffix:
  assumes "s \<noteq> [] \<longrightarrow> \<not> is_space (last s)"
    and "search_from False plan_suffix_pattern prev s"
  shows "\<exists>u ph. s = u @ ph \<and> ph \<in> set plan_phrases"
  using sub_plan_suffix [OF assms(1), of prev] assms(2)
  by (metis append.assoc)

lemma rstrip_spaces: "list_all is_space w \<Longrightarrow> rstrip (a @ w) = rstrip a"
proof -
  assume "list_all is_space w"
  then have "dropWhile is_space (rev w @ rev a) = dropWhile is_space (rev a)"
    by (intro dropWhile_append2) (simp add: list_all_iff)
  then show ?thesis by (simp add: rstrip_def)
qed

lemma rstrip_kept: "y \<noteq> [] \<Longrightarrow> \<not> is_space (last y) \<Longrightarrow> rstrip (a @ y) = a @ y"
proof -
  assume "y \<noteq> []" "\<not> is_space (last y)"
  then have "dropWhile is_space (rev y @ rev a) = rev y @ rev a"
    by (cases "rev y") (simp_all add: last_rev [symmetric] hd_rev)
  then show ?thesis by (simp add: rstrip_def)
qed

text \<open>
  C9. The claim: for every input that does not end with a duplicated trailing
  plan-qualifier phrase, normalizing twice gives the same as normalizing once. The
  second substitution removes one phrase from the end, and the text before it may end
  with another phrase of the list: "abc long term plan reg" does not end with a
  duplicated phrase, its normal form is "abc long term plan", and the normal form of
  that is "abc".
\<close>

theorem normalize_not_idempotent_counterexample:
  "\<not> duplicated_plan_phrase (clean_text ''abc long term plan reg'')
   \<and> normalize ''abc long term plan reg'' = ''abc long term plan''
   \<and> normalize (normalize ''abc long term plan reg'') = ''abc''"
  by code_simp

text \<open>
  C9, amended. For every input, of Latin-1 characters, whose cleaned text does not end
  with two plan-qualifier phrases one right after the other, the same phrase twice or
  two different ones, normalizing twice gives the same as normalizing once.
\<close>

theorem normalize_idempotent:
  assumes "\<not> stacked_plan_phrases (clean_text x)"
  shows "normalize (normalize x) = normalize x"
proof -
  let ?t = "clean_text x"
  let ?u = "re_sub_empty False plan_suffix_pattern ?t"
  let ?y = "strip ?u"
  have t_end: "?t \<noteq> [] \<longrightarrow> \<not> is_space (last ?t)"
    using clean_text_stripped [of x] by (auto simp: stripped_def)
  have y_end: "?y \<noteq> [] \<longrightarrow> \<not> is_space (last ?y)"
    using strip_stripped [of ?u] by (auto simp: stripped_def)
  have y: "normalize x = ?y" by (rule normalize_alt)
  from sub_plan_suffix [OF t_end, of None]
  have split: "\<exists>m. ?t = ?u @ m"
    by (auto simp: re_sub_empty_def split: if_splits)
  then have "set ?u \<subseteq> set ?t" by (metis Un_upper1 set_append)
  with strip_subset [of ?u] clean_text_settled [of x] have "settled ?y"
    by (auto simp: settled_def list_all_iff)
  with strip_stripped [of ?u] have clean_y: "clean_text ?y = ?y"
    by (simp add: settled_clean_text)
  have no_match: "\<not> search_from False plan_suffix_pattern None ?y"
  proof
    assume found: "search_from False plan_suffix_pattern None ?y"
    from search_plan_suffix [OF y_end this] obtain u2 p where
      p: "?y = u2 @ p" "p \<in> set plan_phrases" by auto
    then have y_ne: "?y \<noteq> []" by (auto dest: phrases_not_empty)
    with y_end have y_last: "\<not> is_space (last ?y)" by simp
    have changed: "search_from False plan_suffix_pattern None ?t"
    proof (rule ccontr)
      assume "\<not> search_from False plan_suffix_pattern None ?t"
      with sub_plan_suffix [OF t_end, of None] have "?u = ?t"
        by (simp add: re_sub_empty_def)
      then have "?y = ?t" using clean_text_stripped [of x] by (simp add: stripped_strip)
      with found \<open>\<not> search_from False plan_suffix_pattern None ?t\<close> show False by simp
    qed
    with sub_plan_suffix [OF t_end, of None] obtain w q where
      q: "?t = ?u @ w @ q" "list_all is_space w" "q \<in> set plan_phrases"
      by (auto simp: re_sub_empty_def)
    from strip_parts [of ?u] obtain l r where
      u: "?u = l @ ?y @ r" "list_all is_space r" by auto
    have "without_suffix q ?t = ?u @ w"
      using q(1) without_suffix_append [of q "?u @ w"] by simp
    then have "rstrip (without_suffix q ?t) = rstrip (l @ ?y)"
      using u q(2) rstrip_spaces [of w ?u] rstrip_spaces [of r "l @ ?y"] by simp
    also have "\<dots> = l @ ?y" using y_ne y_last by (rule rstrip_kept)
    finally have "rstrip (without_suffix q ?t) = (l @ u2) @ p" using p(1) by simp
    then have "ends_with p (rstrip (without_suffix q ?t))"
      using ends_with_append [of p "l @ u2"] by simp
    moreover have "ends_with q ?t"
      using q(1) ends_with_append [of q "?u @ w"] by simp
    ultimately have "stacked_plan_phrases ?t"
      using p(2) q(3) by (auto simp: stacked_plan_phrases_def list_ex_iff)
    with assms show False by simp
  qed
  with sub_plan_suffix [OF y_end, of None]
  have "re_sub_empty False plan_suffix_pattern ?y = ?y"
    by (simp add: re_sub_empty_def)
  then have "normalize ?y = strip ?y"
    by (simp add: normalize_alt clean_y)
  also have "\<dots> = ?y" using strip_stripped [of ?u] by (rule stripped_strip)
  finally show ?thesis by (simp add: y)
qed

theorem normalize_idempotent_witness:
  "normalize (normalize ''ABC Fund - Regular Plan'') = normalize ''ABC Fund - Regular Plan''
   \<and> normalize ''ABC Fund - Regular Plan'' = ''abc fund''"
proof -
  have "\<not> stacked_plan_phrases (clean_text ''ABC Fund - Regular Plan'')" by code_simp
  from normalize_idempotent [OF this] show ?thesis by code_simp
qed

end
